theory Spec2Isabelle
  imports Complex_Main "HOL-Library.Sublist"
begin

section \<open>Conventions of the embedding\<close>

text \<open>
  The theory embeds the ranking code of \<^verbatim>\<open>db/search.go\<close>, the storage functions of
  \<^verbatim>\<open>db/db.go\<close> and the reconciliation loops of the \<^verbatim>\<open>sync\<close> package.

  \<^item> A Go \<^verbatim>\<open>float64\<close> is a \<open>float64\<close>: NaN, one of the two infinities, or a
    finite number. Subtraction, addition and halving round to the nearest binary64
    number, ties to even, and comparisons are false when an operand is NaN
    (section \<open>Binary64 arithmetic\<close>).
  \<^item> A Go \<^verbatim>\<open>int\<close> is an \<^typ>\<open>int\<close>. The ranking code only compares such values and
    slices with them; the one multiplication (the size of the candidate set) wraps at 64
    bits and is written out.
  \<^item> A Go function returns a value, returns an error, or panics: the three cases of
    \<open>result\<close>.
\<close>

datatype panic = SliceBoundsOutOfRange | NilPointerDereference

datatype error =
    Failure string
  | ErrNoRows
  | Errorf string error

datatype 'a result = Ok 'a | Err error | Panic panic

section \<open>Binary64 arithmetic\<close>

text \<open>
  The values of a \<^verbatim>\<open>float64\<close>. \<open>Fin x\<close> is the finite number \<open>x\<close>; the two zeros are
  one value, since no operation of the ranking code tells them apart.
\<close>

datatype float64 = NaN | NInf | Fin real | PInf

text \<open>
  The order of the numbers, with \<open>NInf\<close> below and \<open>PInf\<close> above every finite number.
  It is made total by putting \<open>NaN\<close> below everything. The comparisons of the program
  are \<open>flt\<close>, \<open>fle\<close> and \<open>fgt\<close>: this order on operands other than NaN, and false
  when an operand is NaN.
\<close>

instantiation float64 :: linorder
begin

fun less_eq_float64 :: "float64 \<Rightarrow> float64 \<Rightarrow> bool" where
  "less_eq_float64 NaN b = True"
| "less_eq_float64 NInf b = (b \<noteq> NaN)"
| "less_eq_float64 (Fin x) b = (case b of NaN \<Rightarrow> False | NInf \<Rightarrow> False | Fin y \<Rightarrow> x \<le> y | PInf \<Rightarrow> True)"
| "less_eq_float64 PInf b = (b = PInf)"

definition less_float64 :: "float64 \<Rightarrow> float64 \<Rightarrow> bool" where
  "less_float64 a b \<longleftrightarrow> a \<le> b \<and> \<not> b \<le> a"

instance
proof
  fix x y z :: float64
  show "x < y \<longleftrightarrow> x \<le> y \<and> \<not> y \<le> x" by (simp add: less_float64_def)
  show "x \<le> x" by (cases x) simp_all
  show "x \<le> y \<Longrightarrow> y \<le> z \<Longrightarrow> x \<le> z" by (cases x; cases y; cases z) simp_all
  show "x \<le> y \<Longrightarrow> y \<le> x \<Longrightarrow> x = y" by (cases x; cases y) simp_all
  show "x \<le> y \<or> y \<le> x" by (cases x; cases y) auto
qed

end

definition flt :: "float64 \<Rightarrow> float64 \<Rightarrow> bool" where
  "flt a b \<longleftrightarrow> a \<noteq> NaN \<and> b \<noteq> NaN \<and> a < b"

definition fle :: "float64 \<Rightarrow> float64 \<Rightarrow> bool" where
  "fle a b \<longleftrightarrow> a \<noteq> NaN \<and> b \<noteq> NaN \<and> a \<le> b"

definition fgt :: "float64 \<Rightarrow> float64 \<Rightarrow> bool" where
  "fgt a b \<longleftrightarrow> a \<noteq> NaN \<and> b \<noteq> NaN \<and> b < a"

text \<open>
  Rounding. \<open>ilog2 x\<close> is the exponent of a positive number, \<open>\<lfloor>log\<^sub>2 x\<rfloor>\<close>, found by
  halving or doubling. A binary64 number has 53 significant bits and an exponent of at
  least \<open>-1022\<close>, so the numbers next to \<open>x\<close> are the multiples of
  \<open>2\<^bsup>max (ilog2 \<bar>x\<bar>) (-1022) - 52\<^esup>\<close>; \<open>rne\<close> picks the nearest multiple, the even one on
  a tie. A result of magnitude \<open>2\<^bsup>1024\<^esup>\<close> or more is an infinity.
\<close>

definition pow2 :: "int \<Rightarrow> real" where
  "pow2 k = (if 0 \<le> k then 2 ^ nat k else 1 / 2 ^ nat (- k))"

function ilog2 :: "real \<Rightarrow> int" where
  "ilog2 x = (if 2 \<le> x then ilog2 (x / 2) + 1
              else if 0 < x \<and> x < 1 then ilog2 (2 * x) - 1
              else 0)"
  by pat_completeness auto
termination
proof (relation "measure (\<lambda>x. if 1 \<le> x then nat \<lfloor>x\<rfloor> else nat \<lceil>1 / x\<rceil>)")
  show "wf (measure (\<lambda>x::real. if 1 \<le> x then nat \<lfloor>x\<rfloor> else nat \<lceil>1 / x\<rceil>))" by simp
next
  fix x :: real
  assume "2 \<le> x"
  then have "\<lfloor>x / 2\<rfloor> < \<lfloor>x\<rfloor>" by linarith
  with \<open>2 \<le> x\<close> show "(x / 2, x) \<in> measure (\<lambda>x. if 1 \<le> x then nat \<lfloor>x\<rfloor> else nat \<lceil>1 / x\<rceil>)"
    by simp
next
  fix x :: real
  assume a: "\<not> 2 \<le> x" "0 < x \<and> x < 1"
  then have y: "1 < 1 / x" by simp
  show "(2 * x, x) \<in> measure (\<lambda>x. if 1 \<le> x then nat \<lfloor>x\<rfloor> else nat \<lceil>1 / x\<rceil>)"
  proof (cases "1 \<le> 2 * x")
    case True
    with a have "\<lfloor>2 * x\<rfloor> = 1" by linarith
    moreover from y have "2 \<le> \<lceil>1 / x\<rceil>" by linarith
    ultimately show ?thesis using True a by simp
  next
    case False
    with a have "2 < 1 / x" by (simp add: field_simps)
    then have "1 / x / 2 \<le> 1 / x - 1" by simp
    then have "\<lceil>1 / x / 2\<rceil> \<le> \<lceil>1 / x - 1\<rceil>" by (rule ceiling_mono)
    then have "\<lceil>1 / (2 * x)\<rceil> < \<lceil>1 / x\<rceil>" by (simp add: mult.commute)
    moreover from y have "0 < \<lceil>1 / x\<rceil>" by linarith
    ultimately show ?thesis using False a by simp
  qed
qed

declare ilog2.simps [simp del]

definition rne :: "real \<Rightarrow> int" where
  "rne x = (let f = \<lfloor>x\<rfloor>; d = x - of_int f in
            if d < 1 / 2 then f
            else if 1 / 2 < d then f + 1
            else if even f then f else f + 1)"

definition round64 :: "real \<Rightarrow> float64" where
  "round64 x =
     (let e = max (ilog2 \<bar>x\<bar>) (- 1022);
          ulp = pow2 (e - 52);
          y = of_int (rne (x / ulp)) * ulp
      in if 2 ^ 1024 \<le> y then PInf else if y \<le> - (2 ^ 1024) then NInf else Fin y)"

text \<open>
  The operations of the ranking code: \<^verbatim>\<open>a - b\<close>, \<^verbatim>\<open>a + b\<close> and \<^verbatim>\<open>a / 2\<close>, each
  the exact result rounded, with the IEEE rules for NaN and the infinities. A decimal
  literal of the source denotes the nearest binary64 number. The operations are defined
  on every \<open>Fin x\<close>; their results, and the literals, are binary64 numbers.
\<close>

definition fsub :: "float64 \<Rightarrow> float64 \<Rightarrow> float64" where
  "fsub a b =
     (case (a, b) of
        (NaN, _) \<Rightarrow> NaN
      | (_, NaN) \<Rightarrow> NaN
      | (Fin x, Fin y) \<Rightarrow> round64 (x - y)
      | (Fin x, PInf) \<Rightarrow> NInf
      | (Fin x, NInf) \<Rightarrow> PInf
      | (PInf, PInf) \<Rightarrow> NaN
      | (PInf, _) \<Rightarrow> PInf
      | (NInf, NInf) \<Rightarrow> NaN
      | (NInf, _) \<Rightarrow> NInf)"

definition fadd :: "float64 \<Rightarrow> float64 \<Rightarrow> float64" where
  "fadd a b =
     (case (a, b) of
        (NaN, _) \<Rightarrow> NaN
      | (_, NaN) \<Rightarrow> NaN
      | (Fin x, Fin y) \<Rightarrow> round64 (x + y)
      | (Fin x, PInf) \<Rightarrow> PInf
      | (Fin x, NInf) \<Rightarrow> NInf
      | (PInf, NInf) \<Rightarrow> NaN
      | (PInf, _) \<Rightarrow> PInf
      | (NInf, PInf) \<Rightarrow> NaN
      | (NInf, _) \<Rightarrow> NInf)"

definition fhalve :: "float64 \<Rightarrow> float64" where
  "fhalve a = (case a of Fin x \<Rightarrow> round64 (x / 2) | NaN \<Rightarrow> NaN | NInf \<Rightarrow> NInf | PInf \<Rightarrow> PInf)"

definition lit :: "real \<Rightarrow> float64" where
  "lit x = round64 x"

section \<open>Result ranking (db/search.go)\<close>

record SearchResult =
  ID :: int
  File :: string
  Distance :: float64

record SearchOptions =
  MaxDistance :: float64
  MinResults :: int
  MaxResults :: int
  UseAdaptive :: bool

definition DefaultSearchOptions :: SearchOptions where
  "DefaultSearchOptions =
     \<lparr>MaxDistance = lit 0.8, MinResults = 2, MaxResults = 20, UseAdaptive = True\<rparr>"

text \<open>
  The loop of \<^verbatim>\<open>calculateAdaptiveThreshold\<close>:
  \<^verbatim>\<open>for i := 1; i < len(results) && i < 20; i++\<close>, with the loop variables
  \<^verbatim>\<open>largestGap\<close> and \<^verbatim>\<open>gapIndex\<close> as arguments. It is entered at \<open>i = 1\<close>, so
  \<open>i - 1\<close> is an index of the list.
\<close>

function gap_loop :: "SearchResult list \<Rightarrow> nat \<Rightarrow> float64 \<Rightarrow> nat \<Rightarrow> float64 \<times> nat" where
  "gap_loop results i largestGap gapIndex =
     (if i < length results \<and> i < 20 then
        (let gap = fsub (Distance (results ! i)) (Distance (results ! (i - 1))) in
         if fgt gap largestGap then gap_loop results (i + 1) gap i
         else gap_loop results (i + 1) largestGap gapIndex)
      else (largestGap, gapIndex))"
  by pat_completeness auto
termination
  by (relation "measure (\<lambda>(results, i, largestGap, gapIndex). 20 - i)") auto

declare gap_loop.simps [simp del]

definition calculateAdaptiveThreshold :: "SearchResult list \<Rightarrow> float64 \<Rightarrow> float64" where
  "calculateAdaptiveThreshold results maxThreshold =
     (if length results \<le> 1 then maxThreshold
      else
        (case gap_loop results 1 (Fin 0) 0 of (largestGap, gapIndex) \<Rightarrow>
           if fgt largestGap (lit 0.05) \<and> gapIndex > 0 then
             (let adaptiveThreshold =
                    fadd (Distance (results ! (gapIndex - 1))) (fhalve largestGap) in
              if flt adaptiveThreshold maxThreshold then adaptiveThreshold else maxThreshold)
           else maxThreshold))"

text \<open>
  The two filtering loops of \<^verbatim>\<open>filterByDistance\<close> have the same body: a hit is
  appended to \<^verbatim>\<open>filtered\<close> when its distance is within the threshold and fewer than
  \<^verbatim>\<open>MaxResults\<close> hits were kept so far.
\<close>

fun filter_loop :: "float64 \<Rightarrow> int \<Rightarrow> SearchResult list \<Rightarrow> SearchResult list \<Rightarrow> SearchResult list" where
  "filter_loop threshold maxResults [] filtered = filtered"
| "filter_loop threshold maxResults (result # rest) filtered =
     filter_loop threshold maxResults rest
       (if fle (Distance result) threshold \<and> int (length filtered) < maxResults
        then filtered @ [result] else filtered)"

definition filtered_hits :: "SearchResult list \<Rightarrow> SearchOptions \<Rightarrow> SearchResult list" where
  "filtered_hits results opts =
     (if UseAdaptive opts then
        filter_loop (calculateAdaptiveThreshold results (MaxDistance opts)) (MaxResults opts) results []
      else filter_loop (MaxDistance opts) (MaxResults opts) results [])"

text \<open>
  \<^verbatim>\<open>results[:minCount]\<close> panics when \<^verbatim>\<open>minCount\<close> is negative; it is never larger
  than \<^verbatim>\<open>len(results)\<close> here.
\<close>

definition minCount_of :: "SearchResult list \<Rightarrow> SearchOptions \<Rightarrow> int" where
  "minCount_of results opts =
     (let minCount = MinResults opts;
          minCount = (if minCount > int (length results) then int (length results) else minCount);
          minCount = (if minCount > MaxResults opts then MaxResults opts else minCount)
      in minCount)"

definition filterByDistance :: "SearchResult list \<Rightarrow> SearchOptions \<Rightarrow> SearchResult list result" where
  "filterByDistance results opts =
     (if length results = 0 then Ok results
      else
        (let filtered = filtered_hits results opts in
         if int (length filtered) < MinResults opts \<and> length results > 0 then
           (let minCount = minCount_of results opts in
            if minCount < 0 then Panic SliceBoundsOutOfRange
            else Ok (take (nat minCount) results))
         else Ok filtered))"

text \<open>
  \<^verbatim>\<open>SearchWithThreshold\<close> asks the vector index for the \<open>k\<close> nearest rows, ascending by
  distance. The index is a collaborator, given by what its calls return:
  \<^verbatim>\<open>sqlite_vec.SerializeFloat32\<close> the bytes of the query vector or an error,
  \<^verbatim>\<open>db.Query\<close> a row set or an error. Of a row set \<open>Scan\<close> lists, for the rows that
  \<^verbatim>\<open>rows.Next\<close> presents, what \<^verbatim>\<open>rows.Scan\<close> returns for each, and \<open>rows_Err\<close> is
  what \<^verbatim>\<open>rows.Err\<close> returns after the last of them. The first row that cannot be
  scanned ends the search. \<^verbatim>\<open>opts.MaxResults * 2\<close> wraps at 64 bits.
\<close>

type_synonym bytes = "nat list"

record Rows =
  Scan :: "(error + SearchResult) list"
  rows_Err :: "error option"

record Index =
  SerializeFloat32 :: "real list \<Rightarrow> error + bytes"
  Query :: "bytes \<Rightarrow> int \<Rightarrow> error + Rows"

fun scan_loop :: "(error + SearchResult) list \<Rightarrow> SearchResult list \<Rightarrow> error + SearchResult list" where
  "scan_loop [] allResults = Inr allResults"
| "scan_loop (row # rest) allResults =
     (case row of
        Inl err \<Rightarrow> Inl err
      | Inr result \<Rightarrow> scan_loop rest (allResults @ [result]))"

definition wrap64 :: "int \<Rightarrow> int" where
  "wrap64 x = (x + 2 ^ 63) mod 2 ^ 64 - 2 ^ 63"

definition initialLimit_of :: "SearchOptions \<Rightarrow> int" where
  "initialLimit_of opts =
     (let initialLimit = wrap64 (MaxResults opts * 2) in
      if initialLimit < 100 then 100 else initialLimit)"

definition SearchWithThreshold ::
  "Index \<Rightarrow> real list \<Rightarrow> SearchOptions \<Rightarrow> SearchResult list result" where
  "SearchWithThreshold index embeddings opts =
     (case SerializeFloat32 index embeddings of
        Inl err \<Rightarrow> Err (Errorf ''failed to serialize embedding: %w'' err)
      | Inr embeddingBytes \<Rightarrow>
          (case Query index embeddingBytes (initialLimit_of opts) of
             Inl err \<Rightarrow> Err (Errorf ''failed to execute search query: %w'' err)
           | Inr rows \<Rightarrow>
               (case scan_loop (Scan rows) [] of
                  Inl err \<Rightarrow> Err (Errorf ''failed to scan embedding search row: %w'' err)
                | Inr allResults \<Rightarrow>
                    (case rows_Err rows of
                       Some err \<Rightarrow> Err (Errorf ''error iterating over rows: %w'' err)
                     | None \<Rightarrow> filterByDistance allResults opts))))"

definition SearchWithSimilarity ::
  "Index \<Rightarrow> real list \<Rightarrow> float64 \<Rightarrow> int \<Rightarrow> SearchResult list result" where
  "SearchWithSimilarity index embeddings minSimilarity maxResults =
     (let opts = \<lparr>MaxDistance = fsub (Fin 1) minSimilarity, MinResults = 1,
                  MaxResults = maxResults, UseAdaptive = True\<rparr>
      in case SearchWithThreshold index embeddings opts of
           Err err \<Rightarrow> Err err
         | Panic p \<Rightarrow> Panic p
         | Ok results \<Rightarrow> Ok (map (\<lambda>r. r\<lparr>Distance := fsub (Fin 1) (Distance r)\<rparr>) results))"

text \<open>
  The search of the \<^verbatim>\<open>find\<close> command (\<^verbatim>\<open>search.Run\<close>), after the project was found
  and the query embedded: \<^verbatim>\<open>minSimilarity := 0.03\<close>, \<^verbatim>\<open>limit := 10\<close>.
\<close>

definition find_search :: "Index \<Rightarrow> real list \<Rightarrow> SearchResult list result" where
  "find_search index embeddings =
     (let minSimilarity = lit 0.03; limit = 10 in
      case SearchWithSimilarity index embeddings minSimilarity limit of
        Err err \<Rightarrow> Err (Errorf ''error searching for similar files: %w'' err)
      | Panic p \<Rightarrow> Panic p
      | Ok results \<Rightarrow> Ok results)"

text \<open>
  The cutoff the filtering loop compares with: the adaptive threshold or
  \<^verbatim>\<open>opts.MaxDistance\<close>, as \<^verbatim>\<open>filterByDistance\<close> chooses it.
\<close>

definition threshold_of :: "SearchResult list \<Rightarrow> SearchOptions \<Rightarrow> float64" where
  "threshold_of results opts =
     (if UseAdaptive opts then calculateAdaptiveThreshold results (MaxDistance opts)
      else MaxDistance opts)"


text \<open>The options of \<^verbatim>\<open>SearchCodeExact\<close>, and hits for the examples.\<close>

definition SearchCodeExact_opts :: SearchOptions where
  "SearchCodeExact_opts =
     \<lparr>MaxDistance = lit 0.3, MinResults = 1, MaxResults = 10, UseAdaptive = False\<rparr>"

definition hit :: "int \<Rightarrow> real \<Rightarrow> SearchResult" where
  "hit i d = \<lparr>ID = i, File = ''f.go'', Distance = lit d\<rparr>"


text \<open>
  Claim C4 in the spec's words: the largest gap \<open>g = distance[i] - distance[i-1]\<close> over
  a list of pair indices, the first index where it occurs, and the cutoff derived from
  it, with the subtraction, the halving, the addition and the comparisons of the
  program. The largest gap is the maximum in the order of \<open>float64\<close>, so a gap that is
  NaN is the largest only when every gap is NaN. \<open>pairs_as_worded\<close> is the window the
  claim names (the first \<open>min (20, len)\<close> consecutive pairs, as far as the list has
  them); \<open>pairs_scanned\<close> is the window of the loop (the pairs among the first 20 hits).
\<close>

definition gap_at :: "SearchResult list \<Rightarrow> nat \<Rightarrow> float64" where
  "gap_at results i = fsub (Distance (results ! i)) (Distance (results ! (i - 1)))"

definition spec_cutoff :: "nat list \<Rightarrow> SearchResult list \<Rightarrow> float64 \<Rightarrow> float64" where
  "spec_cutoff pairs results maxDistance =
     (if pairs = [] then maxDistance
      else
        (let g = Max (gap_at results ` set pairs);
             i = hd (filter (\<lambda>i. gap_at results i = g) pairs);
             cutoff = fadd (Distance (results ! (i - 1))) (fhalve g)
         in if fgt g (lit 0.05) \<and> i > 0 then (if flt cutoff maxDistance then cutoff else maxDistance)
            else maxDistance))"

definition pairs_as_worded :: "SearchResult list \<Rightarrow> nat list" where
  "pairs_as_worded results =
     filter (\<lambda>i. i < length results) [1..<Suc (min 20 (length results))]"

definition pairs_scanned :: "SearchResult list \<Rightarrow> nat list" where
  "pairs_scanned results = [1..<min 20 (length results)]"

text \<open>One iteration of the loop of \<open>gap_loop\<close> as a function on the pair of loop variables.\<close>

definition gap_step :: "SearchResult list \<Rightarrow> nat \<Rightarrow> float64 \<times> nat \<Rightarrow> float64 \<times> nat" where
  "gap_step results i s = (if gap_at results i > fst s then (gap_at results i, i) else s)"

text \<open>
  The spec's example for the adaptive cutoff, and a list of 21 hits whose only gap lies
  between the hits at indices 19 and 20.
\<close>

definition gap_example :: "SearchResult list" where
  "gap_example = [hit 1 0.1, hit 2 0.12, hit 3 0.13, hit 4 0.45, hit 5 0.46]"

definition far_gap_example :: "SearchResult list" where
  "far_gap_example = map (\<lambda>i. hit (int i) (if i < 20 then 0.2 else 0.7)) [0..<21]"

text \<open>
  The options \<^verbatim>\<open>SearchWithSimilarity\<close> builds, and the conversion it applies to
  each result, named for the statements below.
\<close>

definition similarity_opts :: "float64 \<Rightarrow> int \<Rightarrow> SearchOptions" where
  "similarity_opts minSimilarity maxResults =
     \<lparr>MaxDistance = fsub (Fin 1) minSimilarity, MinResults = 1,
      MaxResults = maxResults, UseAdaptive = True\<rparr>"

definition to_similarity :: "SearchResult \<Rightarrow> SearchResult" where
  "to_similarity r = r\<lparr>Distance := fsub (Fin 1) (Distance r)\<rparr>"

text \<open>
  An index for the examples: it serializes every query vector and returns the given
  hits, whatever the number of candidates asked for.
\<close>

definition index_of :: "SearchResult list \<Rightarrow> Index" where
  "index_of hits =
     \<lparr>SerializeFloat32 = (\<lambda>embeddings. Inr []),
      Query = (\<lambda>embeddingBytes k. Inr \<lparr>Scan = map Inr hits, rows_Err = None\<rparr>)\<rparr>"

section \<open>Embedding responses (models/embedding.go)\<close>

text \<open>
  Of \<^verbatim>\<open>EmbeddingData\<close> and \<^verbatim>\<open>EmbeddingResponse\<close> the fields the code reads.
  \<^verbatim>\<open>GetEmbeddings\<close> returns a pointer, \<^verbatim>\<open>nil\<close> when neither field holds an
  embedding: \<open>None\<close>. \<^verbatim>\<open>Float32\<close> dereferences its receiver, so it panics on
  \<^verbatim>\<open>nil\<close>; the narrowing of each component to single precision is not modelled.
\<close>

record EmbeddingData =
  Embedding :: "real list"

record EmbeddingResponse =
  Embeddings :: "real list list"
  Data :: "EmbeddingData list"

definition GetEmbeddings :: "EmbeddingResponse \<Rightarrow> real list option" where
  "GetEmbeddings er =
     (if length (Embeddings er) > 0 then Some (Embeddings er ! 0)
      else if length (Data er) > 0 then Some (Embedding (Data er ! 0))
      else None)"

definition Float32 :: "real list option \<Rightarrow> panic + real list" where
  "Float32 e = (case e of None \<Rightarrow> Inl NilPointerDereference | Some v \<Rightarrow> Inr v)"

section \<open>The store (db/db.go)\<close>

text \<open>
  The database file: the table \<^verbatim>\<open>files\<close> (rows in rowid order), the vector table
  \<^verbatim>\<open>context_vectors\<close> (rowid and embedding), the table \<^verbatim>\<open>projects\<close>, and the
  counter SQLite keeps for the \<^verbatim>\<open>AUTOINCREMENT\<close> key of \<^verbatim>\<open>files\<close>.

  Two more fields are the environment of the store. \<open>clock\<close> lists the values that
  \<^verbatim>\<open>CURRENT_TIMESTAMP\<close> takes at the coming inserts. \<open>faults\<close> scripts the storage
  layer: every statement, \<^verbatim>\<open>Begin\<close> and \<^verbatim>\<open>Commit\<close> takes the next flag, and
  fails with an error when the flag is \<open>True\<close>; an exhausted script means no failure.
  A rollback restores the tables; it does not give back time or flags.
\<close>

record Project =
  Alias :: string
  Path :: string
  Client :: string
  Model :: string
  Extensions :: "string list"

record File_row =
  fID :: int
  fFile :: string
  fCreatedAt :: nat

record DB =
  files :: "File_row list"
  context_vectors :: "(int \<times> real list) list"
  projects :: "Project list"
  sqlite_sequence :: int
  clock :: "nat list"
  faults :: "bool list"

definition driver_error :: error where
  "driver_error = Failure ''sqlite''"

definition next_fault :: "DB \<Rightarrow> bool \<times> DB" where
  "next_fault db = (case faults db of [] \<Rightarrow> (False, db) | b # bs \<Rightarrow> (b, db\<lparr>faults := bs\<rparr>))"

definition next_stamp :: "DB \<Rightarrow> nat \<times> DB" where
  "next_stamp db = (case clock db of [] \<Rightarrow> (0, db) | t # ts \<Rightarrow> (t, db\<lparr>clock := ts\<rparr>))"

definition next_rowid :: "DB \<Rightarrow> int" where
  "next_rowid db = fold max (map fID (files db)) (sqlite_sequence db) + 1"

text \<open>The statements the code executes. Each returns its error or result, and the store.\<close>

definition insert_file :: "string \<Rightarrow> DB \<Rightarrow> (error + int) \<times> DB" where
  "insert_file file db =
     (case next_fault db of
        (True, db1) \<Rightarrow> (Inl driver_error, db1)
      | (False, db1) \<Rightarrow>
          (case next_stamp db1 of (t, db2) \<Rightarrow>
             (let lastID = next_rowid db2 in
              (Inr lastID,
               db2\<lparr>files := files db2 @ [\<lparr>fID = lastID, fFile = file, fCreatedAt = t\<rparr>],
                    sqlite_sequence := lastID\<rparr>))))"

definition insert_vector :: "int \<Rightarrow> real list \<Rightarrow> DB \<Rightarrow> (error + unit) \<times> DB" where
  "insert_vector rowid embedding db =
     (case next_fault db of
        (True, db1) \<Rightarrow> (Inl driver_error, db1)
      | (False, db1) \<Rightarrow>
          (Inr (), db1\<lparr>context_vectors := context_vectors db1 @ [(rowid, embedding)]\<rparr>))"

definition delete_vector :: "int \<Rightarrow> DB \<Rightarrow> (error + unit) \<times> DB" where
  "delete_vector rowid db =
     (case next_fault db of
        (True, db1) \<Rightarrow> (Inl driver_error, db1)
      | (False, db1) \<Rightarrow>
          (Inr (), db1\<lparr>context_vectors := filter (\<lambda>v. fst v \<noteq> rowid) (context_vectors db1)\<rparr>))"

definition delete_file :: "int \<Rightarrow> DB \<Rightarrow> (error + unit) \<times> DB" where
  "delete_file fileID db =
     (case next_fault db of
        (True, db1) \<Rightarrow> (Inl driver_error, db1)
      | (False, db1) \<Rightarrow>
          (Inr (), db1\<lparr>files := filter (\<lambda>r. fID r \<noteq> fileID) (files db1)\<rparr>))"

text \<open>
  A transaction holds the tables as they were at \<^verbatim>\<open>Begin\<close>. \<^verbatim>\<open>Rollback\<close>
  restores them; its own error is ignored by the code. A \<^verbatim>\<open>Commit\<close> that fails
  leaves nothing of the transaction behind.
\<close>

definition Rollback :: "DB \<Rightarrow> DB \<Rightarrow> DB" where
  "Rollback tx db =
     db\<lparr>files := files tx, context_vectors := context_vectors tx,
        projects := projects tx, sqlite_sequence := sqlite_sequence tx\<rparr>"

definition Begin :: "DB \<Rightarrow> (error + DB) \<times> DB" where
  "Begin db =
     (case next_fault db of
        (True, db1) \<Rightarrow> (Inl driver_error, db1)
      | (False, db1) \<Rightarrow> (Inr db1, db1))"

definition Commit :: "DB \<Rightarrow> DB \<Rightarrow> (error + unit) \<times> DB" where
  "Commit tx db =
     (case next_fault db of
        (True, db1) \<Rightarrow> (Inl driver_error, Rollback tx db1)
      | (False, db1) \<Rightarrow> (Inr (), db1))"

text \<open>
  The functions of \<^verbatim>\<open>db.go\<close>. \<^verbatim>\<open>LastInsertId\<close> and
  \<^verbatim>\<open>SerializeFloat32\<close> do not fail. \<^verbatim>\<open>SaveFileEmbedding\<close> runs its two inserts
  outside any transaction. In \<^verbatim>\<open>UpdateFileEmbedding\<close> a panic leaves the transaction
  uncommitted, so the tables are those of before.
\<close>

definition SaveFileEmbedding :: "string \<Rightarrow> real list option \<Rightarrow> DB \<Rightarrow> int result \<times> DB" where
  "SaveFileEmbedding file embedding db =
     (case insert_file file db of
        (Inl err, db1) \<Rightarrow> (Err (Errorf ''failed to insert err: %w'' err), db1)
      | (Inr lastID, db1) \<Rightarrow>
          (case Float32 embedding of
             Inl p \<Rightarrow> (Panic p, db1)
           | Inr v \<Rightarrow>
               (case insert_vector lastID v db1 of
                  (Inl err, db2) \<Rightarrow>
                    (Err (Errorf ''failed to insert into context_vectors: %w'' err), db2)
                | (Inr u, db2) \<Rightarrow> (Ok lastID, db2))))"

definition UpdateFileEmbedding ::
  "int \<Rightarrow> string \<Rightarrow> real list option \<Rightarrow> DB \<Rightarrow> unit result \<times> DB" where
  "UpdateFileEmbedding fileID filePath newEmbedding db =
     (case Begin db of
        (Inl err, db0) \<Rightarrow> (Err (Errorf ''failed to begin transaction: %w'' err), db0)
      | (Inr tx, db0) \<Rightarrow>
     (case delete_vector fileID db0 of
        (Inl err, db1) \<Rightarrow>
          (Err (Errorf ''failed to delete vector for fileID %d: %w'' err), Rollback tx db1)
      | (Inr u, db1) \<Rightarrow>
     (case delete_file fileID db1 of
        (Inl err, db2) \<Rightarrow>
          (Err (Errorf ''failed to delete file record for fileID %d: %w'' err), Rollback tx db2)
      | (Inr u, db2) \<Rightarrow>
     (case insert_file filePath db2 of
        (Inl err, db3) \<Rightarrow>
          (Err (Errorf ''failed to insert new file record: %w'' err), Rollback tx db3)
      | (Inr newID, db3) \<Rightarrow>
     (case Float32 newEmbedding of
        Inl p \<Rightarrow> (Panic p, Rollback tx db3)
      | Inr v \<Rightarrow>
     (case insert_vector newID v db3 of
        (Inl err, db4) \<Rightarrow>
          (Err (Errorf ''failed to insert new vector: %w'' err), Rollback tx db4)
      | (Inr u, db4) \<Rightarrow>
     (case Commit tx db4 of
        (Inl err, db5) \<Rightarrow> (Err (Errorf ''failed to commit transaction: %w'' err), db5)
      | (Inr u, db5) \<Rightarrow> (Ok (), db5))))))))"

definition DeleteFileAndVector :: "int \<Rightarrow> DB \<Rightarrow> unit result \<times> DB" where
  "DeleteFileAndVector fileID db =
     (case Begin db of
        (Inl err, db0) \<Rightarrow> (Err (Errorf ''failed to begin transaction: %w'' err), db0)
      | (Inr tx, db0) \<Rightarrow>
     (case delete_vector fileID db0 of
        (Inl err, db1) \<Rightarrow>
          (Err (Errorf ''failed to delete vector for fileID %d: %w'' err), Rollback tx db1)
      | (Inr u, db1) \<Rightarrow>
     (case delete_file fileID db1 of
        (Inl err, db2) \<Rightarrow>
          (Err (Errorf ''failed to delete file record for fileID %d: %w'' err), Rollback tx db2)
      | (Inr u, db2) \<Rightarrow>
     (case Commit tx db2 of
        (Inl err, db3) \<Rightarrow> (Err (Errorf ''failed to commit transaction: %w'' err), db3)
      | (Inr u, db3) \<Rightarrow> (Ok (), db3)))))"

text \<open>
  The queries. A query that fails takes its flag and returns the error.
  \<^verbatim>\<open>ORDER BY created_at ASC\<close> is a stable sort of the rows by their timestamp (SQL
  leaves the order of equal timestamps open). \<^verbatim>\<open>GetProjectFilePaths\<close> returns a
  \<^verbatim>\<open>map[string]bool\<close> holding \<^verbatim>\<open>true\<close> for each path: a set.
\<close>

definition GetFilesToSync :: "DB \<Rightarrow> (error + File_row list) \<times> DB" where
  "GetFilesToSync db =
     (case next_fault db of
        (True, db1) \<Rightarrow> (Inl (Errorf ''failed to query files for sync: %w'' driver_error), db1)
      | (False, db1) \<Rightarrow> (Inr (sort_key fCreatedAt (files db1)), db1))"

definition GetProjectFilePaths :: "DB \<Rightarrow> (error + string set) \<times> DB" where
  "GetProjectFilePaths db =
     (case next_fault db of
        (True, db1) \<Rightarrow> (Inl (Errorf ''failed to query files: %w'' driver_error), db1)
      | (False, db1) \<Rightarrow> (Inr (set (map fFile (files db1))), db1))"

definition GetProjectByAlias :: "string \<Rightarrow> DB \<Rightarrow> (error + Project) \<times> DB" where
  "GetProjectByAlias alias db =
     (case next_fault db of
        (True, db1) \<Rightarrow>
          (Inl (Errorf ''failed to get project with alias %s: %w'' driver_error), db1)
      | (False, db1) \<Rightarrow>
          (case find (\<lambda>p. Alias p = alias) (projects db1) of
             None \<Rightarrow> (Inl ErrNoRows, db1)
           | Some project \<Rightarrow> (Inr project, db1)))"

text \<open>
  \<^verbatim>\<open>InitDB\<close> opens the database file and creates the three tables if they do not
  exist. The store of the model has its tables, so each \<^verbatim>\<open>CREATE\<close> only takes its
  flag.
\<close>

definition create_table :: "DB \<Rightarrow> (error + unit) \<times> DB" where
  "create_table db =
     (case next_fault db of
        (True, db1) \<Rightarrow> (Inl driver_error, db1)
      | (False, db1) \<Rightarrow> (Inr (), db1))"

definition InitDB :: "string \<Rightarrow> int \<Rightarrow> DB \<Rightarrow> (error + unit) \<times> DB" where
  "InitDB name dimensions db =
     (case create_table db of
        (Inl err, db1) \<Rightarrow> (Inl (Errorf ''error creating files table: %w'' err), db1)
      | (Inr u, db1) \<Rightarrow>
     (case create_table db1 of
        (Inl err, db2) \<Rightarrow> (Inl (Errorf ''error creating projects table: %w'' err), db2)
      | (Inr u, db2) \<Rightarrow>
     (case create_table db2 of
        (Inl err, db3) \<Rightarrow> (Inl (Errorf ''error creating context_vectors table: %w'' err), db3)
      | (Inr u, db3) \<Rightarrow> (Inr (), db3))))"

definition SetupDatabase :: "string \<Rightarrow> int \<Rightarrow> DB \<Rightarrow> (error + unit) \<times> DB" where
  "SetupDatabase projectAlias dimensions db =
     (case InitDB projectAlias dimensions db of
        (Inl err, db1) \<Rightarrow> (Inl (Errorf ''failed to initialize database: %w'' err), db1)
      | (Inr u, db1) \<Rightarrow> (Inr (), db1))"

section \<open>Reconciliation (package sync)\<close>

text \<open>
  The collaborators of the loops: the walk of the file tree
  (\<^verbatim>\<open>file.RecursiveFiles\<close>, given the project path and the extensions),
  \<^verbatim>\<open>os.ReadFile\<close>, the embedding provider (\<^verbatim>\<open>client.Embeddings\<close>, given the
  client name, the model name and the text) and \<^verbatim>\<open>filepath.Join\<close>. Each is a
  function, so a collaborator asked twice for the same thing answers the same.
\<close>

record Env =
  file_RecursiveFiles :: "string \<Rightarrow> string list \<Rightarrow> error + string list"
  os_ReadFile :: "string \<Rightarrow> error + string"
  client_Embeddings :: "string \<Rightarrow> string \<Rightarrow> string \<Rightarrow> error + EmbeddingResponse"
  filepath_Join :: "string \<Rightarrow> string \<Rightarrow> string"

record Config =
  ProjectAlias :: string
  ProjectPath :: string
  ClientName :: string
  ModelName :: string
  ConfigExtensions :: "string list"

text \<open>The lines the loops write with \<^verbatim>\<open>log.Printf\<close> and \<^verbatim>\<open>log.Println\<close>.\<close>

datatype log_line =
    Syncing_code_files
  | Found_files nat
  | Processing_file string
  | Processing_new_files
  | Adding_new_file string
  | Processing_existing_files
  | Updating_file string
  | Removing_deleted_file string
  | Error_reading_file string error
  | Error_generating_embeddings string error

record World =
  db :: DB
  log :: "log_line list"

definition say :: "log_line \<Rightarrow> World \<Rightarrow> World" where
  "say line w = w\<lparr>log := log w @ [line]\<rparr>"

definition TrimPrefix :: "string \<Rightarrow> string \<Rightarrow> string" where
  "TrimPrefix s p = (if prefix p s then drop (length p) s else s)"

text \<open>\<^verbatim>\<open>fmt.Sprintf("%s\n%s", path, content)\<close>\<close>

definition embed_text :: "string \<Rightarrow> string \<Rightarrow> string" where
  "embed_text path content = path @ [CHR 0x0A] @ content"

text \<open>
  The body of the first loop of \<^verbatim>\<open>RunSync\<close>, for one local file. \<open>Ok ()\<close> is the
  end of the iteration (also by \<^verbatim>\<open>continue\<close>); an error is the \<^verbatim>\<open>return\<close>.
\<close>

definition new_file_step ::
  "Env \<Rightarrow> Config \<Rightarrow> string set \<Rightarrow> string \<Rightarrow> World \<Rightarrow> unit result \<times> World" where
  "new_file_step env config existingFilePaths filePath w =
     (let relativePath = TrimPrefix filePath (ProjectPath config) in
      if relativePath \<notin> existingFilePaths then
        (let w1 = say (Adding_new_file relativePath) w in
         case os_ReadFile env filePath of
           Inl err \<Rightarrow> (Ok (), say (Error_reading_file filePath err) w1)
         | Inr content \<Rightarrow>
             (case client_Embeddings env (ClientName config) (ModelName config)
                     (embed_text relativePath content) of
                Inl err \<Rightarrow> (Ok (), say (Error_generating_embeddings filePath err) w1)
              | Inr res \<Rightarrow>
                  (case SaveFileEmbedding relativePath (GetEmbeddings res) (db w1) of
                     (Err err, d) \<Rightarrow>
                       (Err (Errorf ''error saving embedding for file %s: %w'' err), w1\<lparr>db := d\<rparr>)
                   | (Panic p, d) \<Rightarrow> (Panic p, w1\<lparr>db := d\<rparr>)
                   | (Ok newID, d) \<Rightarrow> (Ok (), w1\<lparr>db := d\<rparr>))))
      else (Ok (), w))"

fun new_files_loop ::
  "Env \<Rightarrow> Config \<Rightarrow> string set \<Rightarrow> string list \<Rightarrow> World \<Rightarrow> unit result \<times> World" where
  "new_files_loop env config existingFilePaths [] w = (Ok (), w)"
| "new_files_loop env config existingFilePaths (filePath # rest) w =
     (case new_file_step env config existingFilePaths filePath w of
        (Ok u, w1) \<Rightarrow> new_files_loop env config existingFilePaths rest w1
      | (Err err, w1) \<Rightarrow> (Err err, w1)
      | (Panic p, w1) \<Rightarrow> (Panic p, w1))"

text \<open>The body of the second loop, for one row of \<^verbatim>\<open>GetFilesToSync\<close>.\<close>

definition existing_file_step ::
  "Env \<Rightarrow> Config \<Rightarrow> string set \<Rightarrow> File_row \<Rightarrow> World \<Rightarrow> unit result \<times> World" where
  "existing_file_step env config localFilePaths fileRecord w =
     (if fFile fileRecord \<in> localFilePaths then
        (let w1 = say (Updating_file (fFile fileRecord)) w;
             fullPath = filepath_Join env (ProjectPath config) (fFile fileRecord) in
         case os_ReadFile env fullPath of
           Inl err \<Rightarrow> (Ok (), say (Error_reading_file fullPath err) w1)
         | Inr content \<Rightarrow>
             (case client_Embeddings env (ClientName config) (ModelName config)
                     (embed_text (fFile fileRecord) content) of
                Inl err \<Rightarrow> (Ok (), say (Error_generating_embeddings fullPath err) w1)
              | Inr res \<Rightarrow>
                  (case UpdateFileEmbedding (fID fileRecord) (fFile fileRecord)
                          (GetEmbeddings res) (db w1) of
                     (Err err, d) \<Rightarrow>
                       (Err (Errorf ''error updating embedding for file %s: %w'' err), w1\<lparr>db := d\<rparr>)
                   | (Panic p, d) \<Rightarrow> (Panic p, w1\<lparr>db := d\<rparr>)
                   | (Ok u, d) \<Rightarrow> (Ok (), w1\<lparr>db := d\<rparr>))))
      else
        (let w1 = say (Removing_deleted_file (fFile fileRecord)) w in
         case DeleteFileAndVector (fID fileRecord) (db w1) of
           (Err err, d) \<Rightarrow>
             (Err (Errorf ''error deleting file and vector for file %s: %w'' err), w1\<lparr>db := d\<rparr>)
         | (Panic p, d) \<Rightarrow> (Panic p, w1\<lparr>db := d\<rparr>)
         | (Ok u, d) \<Rightarrow> (Ok (), w1\<lparr>db := d\<rparr>)))"

fun existing_files_loop ::
  "Env \<Rightarrow> Config \<Rightarrow> string set \<Rightarrow> File_row list \<Rightarrow> World \<Rightarrow> unit result \<times> World" where
  "existing_files_loop env config localFilePaths [] w = (Ok (), w)"
| "existing_files_loop env config localFilePaths (fileRecord # rest) w =
     (case existing_file_step env config localFilePaths fileRecord w of
        (Ok u, w1) \<Rightarrow> existing_files_loop env config localFilePaths rest w1
      | (Err err, w1) \<Rightarrow> (Err err, w1)
      | (Panic p, w1) \<Rightarrow> (Panic p, w1))"

text \<open>
  \<^verbatim>\<open>RunSync\<close> after the project was read: the walk, the two path maps, the loop
  over the local files, then the rows of \<^verbatim>\<open>GetFilesToSync\<close>, queried after the
  first loop has run.
\<close>

definition sync_project :: "Env \<Rightarrow> Config \<Rightarrow> World \<Rightarrow> unit result \<times> World" where
  "sync_project env config w =
     (case file_RecursiveFiles env (ProjectPath config) (ConfigExtensions config) of
        Inl err \<Rightarrow> (Err (Errorf ''error finding local files: %w'' err), w)
      | Inr localFiles \<Rightarrow>
     (let localFilePaths = set (map (\<lambda>filePath. TrimPrefix filePath (ProjectPath config)) localFiles) in
      case GetProjectFilePaths (db w) of
        (Inl err, d) \<Rightarrow> (Err (Errorf ''error getting existing file paths: %w'' err), w\<lparr>db := d\<rparr>)
      | (Inr existingFilePaths, d) \<Rightarrow>
     (case new_files_loop env config existingFilePaths localFiles
             (say Processing_new_files (w\<lparr>db := d\<rparr>)) of
        (Err err, w1) \<Rightarrow> (Err err, w1)
      | (Panic p, w1) \<Rightarrow> (Panic p, w1)
      | (Ok u, w1) \<Rightarrow>
     (let w2 = say Processing_existing_files w1 in
      case GetFilesToSync (db w2) of
        (Inl err, d2) \<Rightarrow> (Err (Errorf ''error getting files to sync: %w'' err), w2\<lparr>db := d2\<rparr>)
      | (Inr existingFiles, d2) \<Rightarrow>
          existing_files_loop env config localFilePaths existingFiles (w2\<lparr>db := d2\<rparr>)))))"

definition RunSync :: "Env \<Rightarrow> string \<Rightarrow> World \<Rightarrow> unit result \<times> World" where
  "RunSync env projectAlias w =
     (case SetupDatabase projectAlias 0 (db w) of
        (Inl err, d) \<Rightarrow> (Err (Errorf ''failed to initialize database: %w'' err), w\<lparr>db := d\<rparr>)
      | (Inr u, d) \<Rightarrow>
     (case GetProjectByAlias projectAlias d of
        (Inl err, d1) \<Rightarrow>
          (Err (Errorf ''failed to get project config for alias %s: %w'' err), w\<lparr>db := d1\<rparr>)
      | (Inr project, d1) \<Rightarrow>
          sync_project env
            \<lparr>ProjectAlias = Alias project, ProjectPath = Path project,
             ClientName = Client project, ModelName = Model project,
             ConfigExtensions = Extensions project\<rparr>
            (w\<lparr>db := d1\<rparr>)))"

text \<open>The loop of \<^verbatim>\<open>processProjectFiles\<close> (the build), for one file and for all.\<close>

definition process_file_step :: "Env \<Rightarrow> Config \<Rightarrow> string \<Rightarrow> World \<Rightarrow> unit result \<times> World" where
  "process_file_step env config filePath w =
     (case os_ReadFile env filePath of
        Inl err \<Rightarrow> (Ok (), say (Error_reading_file filePath err) w)
      | Inr content \<Rightarrow>
          (let relativePath = TrimPrefix filePath (ProjectPath config);
               w1 = say (Processing_file relativePath) w in
           case client_Embeddings env (ClientName config) (ModelName config)
                  (embed_text relativePath content) of
             Inl err \<Rightarrow> (Ok (), say (Error_generating_embeddings filePath err) w1)
           | Inr res \<Rightarrow>
               (case SaveFileEmbedding relativePath (GetEmbeddings res) (db w1) of
                  (Err err, d) \<Rightarrow>
                    (Err (Errorf ''error saving embedding for file %s: %w'' err), w1\<lparr>db := d\<rparr>)
                | (Panic p, d) \<Rightarrow> (Panic p, w1\<lparr>db := d\<rparr>)
                | (Ok newID, d) \<Rightarrow> (Ok (), w1\<lparr>db := d\<rparr>))))"

fun process_files_loop :: "Env \<Rightarrow> Config \<Rightarrow> string list \<Rightarrow> World \<Rightarrow> unit result \<times> World" where
  "process_files_loop env config [] w = (Ok (), w)"
| "process_files_loop env config (filePath # rest) w =
     (case process_file_step env config filePath w of
        (Ok u, w1) \<Rightarrow> process_files_loop env config rest w1
      | (Err err, w1) \<Rightarrow> (Err err, w1)
      | (Panic p, w1) \<Rightarrow> (Panic p, w1))"

definition processProjectFiles :: "Env \<Rightarrow> Config \<Rightarrow> World \<Rightarrow> unit result \<times> World" where
  "processProjectFiles env config w =
     (let w0 = say Syncing_code_files w in
      case file_RecursiveFiles env (ProjectPath config) (ConfigExtensions config) of
        Inl err \<Rightarrow> (Err (Errorf ''error finding files: %w'' err), w0)
      | Inr fs \<Rightarrow> process_files_loop env config fs (say (Found_files (length fs)) w0))"

text \<open>
  A project for the examples: the local files \<open>a\<close>, \<open>b\<close>, \<open>c\<close>, the stored files
  \<open>b\<close>, \<open>c\<close>, \<open>d\<close>, a provider that answers every request with a one-component
  embedding, and a response that holds no embedding.
\<close>

definition go_project :: Project where
  "go_project = \<lparr>Alias = ''p'', Path = ''/src'', Client = ''ollama'', Model = ''m'',
                  Extensions = [''go'']\<rparr>"

definition unit_response :: EmbeddingResponse where
  "unit_response = \<lparr>Embeddings = [[1]], Data = []\<rparr>"

definition empty_response :: EmbeddingResponse where
  "empty_response = \<lparr>Embeddings = [], Data = []\<rparr>"

definition abc_env :: Env where
  "abc_env =
     \<lparr>file_RecursiveFiles = (\<lambda>path exts. Inr [''/src/a.go'', ''/src/b.go'', ''/src/c.go'']),
      os_ReadFile = (\<lambda>path. Inr ''package x''),
      client_Embeddings = (\<lambda>c m text. Inr unit_response),
      filepath_Join = (\<lambda>dir path. dir @ path)\<rparr>"

definition bcd_db :: DB where
  "bcd_db =
     \<lparr>files = [\<lparr>fID = 1, fFile = ''/b.go'', fCreatedAt = 1\<rparr>,
               \<lparr>fID = 2, fFile = ''/c.go'', fCreatedAt = 2\<rparr>,
               \<lparr>fID = 3, fFile = ''/d.go'', fCreatedAt = 3\<rparr>],
      context_vectors = [(1, [1]), (2, [1]), (3, [1])],
      projects = [go_project],
      sqlite_sequence = 3,
      clock = [10, 11, 12, 13],
      faults = []\<rparr>"

text \<open>
  The pairing of the two tables: the rows of \<^verbatim>\<open>files\<close> that have no vector, and the
  vectors that have no row. The invariant of the data model is that both lists are empty.
\<close>

definition orphan_files :: "DB \<Rightarrow> File_row list" where
  "orphan_files d = filter (\<lambda>r. fID r \<notin> set (map fst (context_vectors d))) (files d)"

definition orphan_vectors :: "DB \<Rightarrow> (int \<times> real list) list" where
  "orphan_vectors d = filter (\<lambda>v. fst v \<notin> set (map fID (files d))) (context_vectors d)"

definition silent_env :: Env where
  "silent_env = abc_env\<lparr>client_Embeddings := (\<lambda>c m text. Inr empty_response)\<rparr>"

text \<open>
  The line a loop logs when it cannot embed a file: reading \<open>readPath\<close> fails, or the
  provider fails on the text built from \<open>name\<close> and the content. \<open>None\<close> when both
  succeed.
\<close>

definition embed_failure :: "Env \<Rightarrow> Config \<Rightarrow> string \<Rightarrow> string \<Rightarrow> log_line option" where
  "embed_failure env config readPath name =
     (case os_ReadFile env readPath of
        Inl err \<Rightarrow> Some (Error_reading_file readPath err)
      | Inr content \<Rightarrow>
          (case client_Embeddings env (ClientName config) (ModelName config)
                  (embed_text name content) of
             Inl err \<Rightarrow> Some (Error_generating_embeddings readPath err)
           | Inr res \<Rightarrow> None))"

text \<open>A provider whose successful responses all hold an embedding.\<close>

definition never_empty :: "Env \<Rightarrow> bool" where
  "never_empty env \<longleftrightarrow>
     (\<forall>c m text res. client_Embeddings env c m text = Inr res \<longrightarrow> GetEmbeddings res \<noteq> None)"

text \<open>
  More of the example project: an environment in which \<open>a\<close> cannot be read and the
  provider fails on \<open>b\<close>, the configuration \<open>RunSync\<close> derives from the project, the
  state before a run, and a state whose eleventh storage statement fails.
\<close>

definition flaky_env :: Env where
  "flaky_env =
     abc_env\<lparr>os_ReadFile := (\<lambda>path. if path = ''/src/a.go'' then Inl (Failure ''EACCES'')
                                   else Inr ''package x''),
             client_Embeddings := (\<lambda>c m text. if text = embed_text ''/b.go'' ''package x''
                                     then Inl (Failure ''503'') else Inr unit_response)\<rparr>"

definition go_config :: Config where
  "go_config = \<lparr>ProjectAlias = ''p'', ProjectPath = ''/src'', ClientName = ''ollama'',
                 ModelName = ''m'', ConfigExtensions = [''go'']\<rparr>"

definition start_world :: World where
  "start_world = \<lparr>db = bcd_db, log = []\<rparr>"

definition failing_update_world :: World where
  "failing_update_world =
     \<lparr>db = bcd_db\<lparr>faults := [False, False, False, False, False, False, False, False, False, False,
                                True, False, False]\<rparr>, log = []\<rparr>"





section \<open>Storage failures along a run\<close>

text \<open>
  The fault script before and after a run tells what the storage layer did during it.
  \<open>no_storage_failure F F'\<close>: the flags taken between \<open>F\<close> and \<open>F'\<close> were all
  \<open>False\<close>. \<open>stopped_at_storage_failure F F'\<close>: exactly one statement failed, and it
  was the last one executed. \<open>fault_trace b F F'\<close> allows the second only when \<open>b\<close>
  holds.
\<close>

definition no_storage_failure :: "bool list \<Rightarrow> bool list \<Rightarrow> bool" where
  "no_storage_failure F F' \<longleftrightarrow> F = replicate (length F - length F') False @ F'"

definition stopped_at_storage_failure :: "bool list \<Rightarrow> bool list \<Rightarrow> bool" where
  "stopped_at_storage_failure F F' \<longleftrightarrow>
     F = replicate (length F - Suc (length F')) False @ True # F'"

definition fault_trace :: "bool \<Rightarrow> bool list \<Rightarrow> bool list \<Rightarrow> bool" where
  "fault_trace b F F' \<longleftrightarrow> no_storage_failure F F' \<or> (stopped_at_storage_failure F F' \<and> b)"

definition is_Err :: "'a result \<Rightarrow> bool" where
  "is_Err r = (case r of Err e \<Rightarrow> True | Ok x \<Rightarrow> False | Panic p \<Rightarrow> False)"

section \<open>Properties of the arithmetic\<close>

lemma float64_le_simps [simp]:
  "Fin x \<le> Fin y \<longleftrightarrow> x \<le> y"
  "Fin x \<le> PInf" "\<not> Fin x \<le> NInf" "\<not> Fin x \<le> NaN"
  "NaN \<le> a" "PInf \<le> a \<longleftrightarrow> a = PInf" "NInf \<le> a \<longleftrightarrow> a \<noteq> NaN"
  by simp_all

lemma float64_less_simps [simp]:
  "Fin x < Fin y \<longleftrightarrow> x < y"
  "Fin x < PInf" "\<not> Fin x < NInf" "\<not> Fin x < NaN"
  "NaN < a \<longleftrightarrow> a \<noteq> NaN" "\<not> PInf < a" "\<not> a < NaN"
  "NInf < a \<longleftrightarrow> a \<noteq> NaN \<and> a \<noteq> NInf"
  by (cases a; auto simp: less_float64_def)+

declare less_eq_float64.simps [simp del]

lemma fgt_less: "g \<noteq> NaN \<Longrightarrow> fgt a g \<longleftrightarrow> g < a"
  by (cases a) (auto simp: fgt_def)

lemma fgt_not_NaN: "fgt a g \<Longrightarrow> a \<noteq> NaN"
  by (simp add: fgt_def)

lemma fle_flt_trans: "fle a b \<Longrightarrow> flt b c \<Longrightarrow> fle a c"
  by (auto simp: fle_def flt_def)

lemmas float64_eval =
  lit_def round64_def ilog2.simps rne_def pow2_def Let_def
  fsub_def fadd_def fhalve_def flt_def fle_def fgt_def

lemma lit_005_pos: "Fin 0 < lit 0.05"
  by (simp add: float64_eval)

section \<open>Properties of the ranking\<close>

subsection \<open>The filtering loop\<close>

lemma filter_loop_eq:
  "filter_loop thr m rs acc =
     acc @ take (nat m - length acc) (filter (\<lambda>r. fle (Distance r) thr) rs)"
proof (induction rs arbitrary: acc)
  case Nil
  then show ?case by simp
next
  case (Cons r rs)
  show ?case
  proof (cases "fle (Distance r) thr \<and> int (length acc) < m")
    case True
    then have "nat m - length acc = Suc (nat m - Suc (length acc))" by linarith
    with True Cons show ?thesis by simp
  next
    case False
    show ?thesis
    proof (cases "fle (Distance r) thr")
      case True
      with False have "nat m - length acc = 0" by linarith
      with False True Cons show ?thesis by simp
    next
      case False
      with Cons show ?thesis by simp
    qed
  qed
qed

lemma filtered_hits_eq:
  "filtered_hits results opts =
     take (nat (MaxResults opts)) (filter (\<lambda>r. fle (Distance r) (threshold_of results opts)) results)"
  by (simp add: filtered_hits_def threshold_of_def filter_loop_eq)

lemma subseq_take: "subseq (take n xs) xs"
proof -
  have "subseq (take n xs) (take n xs @ drop n xs)"
    by (rule subseq_rev_drop_many) simp
  then show ?thesis by simp
qed

lemma subseq_set: "subseq xs ys \<Longrightarrow> set xs \<subseteq> set ys"
  by (auto elim: list_emb_set)

lemma subseq_sorted_wrt:
  "subseq xs ys \<Longrightarrow> sorted_wrt R ys \<Longrightarrow> sorted_wrt R xs"
proof (induction rule: list_emb.induct)
  case (list_emb_Nil ys)
  then show ?case by simp
next
  case (list_emb_Cons xs ys y)
  then show ?case by simp
next
  case (list_emb_Cons2 x y xs ys)
  then have "set xs \<subseteq> set ys" by (simp add: subseq_set)
  with list_emb_Cons2 show ?case by auto
qed

lemma subseq_filtered_hits: "subseq (filtered_hits results opts) results"
proof -
  let ?kept = "filter (\<lambda>r. fle (Distance r) (threshold_of results opts)) results"
  have "subseq (take (nat (MaxResults opts)) ?kept) ?kept"
    by (rule subseq_take)
  moreover have "subseq ?kept results"
    by (rule subseq_filter_left)
  ultimately have "subseq (take (nat (MaxResults opts)) ?kept) results"
    by (rule subseq_order.order_trans)
  then show ?thesis by (simp only: filtered_hits_eq)
qed

lemma minCount_of_eq:
  "minCount_of results opts = min (MinResults opts) (min (int (length results)) (MaxResults opts))"
  by (simp add: minCount_of_def Let_def min_def)

lemma filterByDistance_cases:
  "filterByDistance results opts =
     (if results = [] then Ok []
      else if MinResults opts \<le> int (length (filtered_hits results opts)) then Ok (filtered_hits results opts)
      else if MaxResults opts < 0 then Panic SliceBoundsOutOfRange
      else Ok (take (nat (min (MinResults opts) (min (int (length results)) (MaxResults opts)))) results))"
proof (cases "results = []")
  case True
  then show ?thesis by (simp add: filterByDistance_def)
next
  case False
  note ne = False
  show ?thesis
  proof (cases "MinResults opts \<le> int (length (filtered_hits results opts))")
    case True
    with ne show ?thesis by (simp add: filterByDistance_def Let_def)
  next
    case False
    have "minCount_of results opts < 0 \<longleftrightarrow> MaxResults opts < 0"
      using False by (simp add: minCount_of_eq min_def)
    with ne False show ?thesis
      by (simp add: filterByDistance_def Let_def minCount_of_eq)
  qed
qed

subsection \<open>The floor and the order of the output\<close>

text \<open>
  Claim C5, as amended. When the hit list is not empty and fewer than \<open>MinResults\<close> hits
  are left after filtering and truncation, \<open>filterByDistance\<close> ignores the distance
  filter: for \<open>MaxResults \<ge> 0\<close> it returns exactly the first
  \<open>min (MinResults, len, MaxResults)\<close> raw hits, and for a negative \<open>MaxResults\<close> the
  slice expression \<^verbatim>\<open>results[:minCount]\<close> panics.
\<close>

theorem floor_returns_closest:
  assumes "results \<noteq> []"
      and "int (length (filtered_hits results opts)) < MinResults opts"
  shows "filterByDistance results opts =
           (if MaxResults opts < 0 then Panic SliceBoundsOutOfRange
            else Ok (take (nat (min (MinResults opts) (min (int (length results)) (MaxResults opts)))) results))"
  using assms by (simp add: filterByDistance_cases)

theorem floor_returns_closest_witness:
  "[hit 1 0.5, hit 2 0.6, hit 3 0.7] \<noteq> [] \<and>
   int (length (filtered_hits [hit 1 0.5, hit 2 0.6, hit 3 0.7]
     \<lparr>MaxDistance = lit 0.3, MinResults = 2, MaxResults = 10, UseAdaptive = False\<rparr>)) < 2 \<and>
   filterByDistance [hit 1 0.5, hit 2 0.6, hit 3 0.7]
     \<lparr>MaxDistance = lit 0.3, MinResults = 2, MaxResults = 10, UseAdaptive = False\<rparr>
     = Ok [hit 1 0.5, hit 2 0.6]"
proof -
  let ?hits = "[hit 1 0.5, hit 2 0.6, hit 3 0.7]"
  let ?opts = "\<lparr>MaxDistance = lit 0.3, MinResults = 2, MaxResults = 10, UseAdaptive = False\<rparr>"
  have ne: "?hits \<noteq> []" by simp
  have few: "int (length (filtered_hits ?hits ?opts)) < MinResults ?opts"
    by (simp add: filtered_hits_def hit_def float64_eval)
  from floor_returns_closest [OF ne few] ne few show ?thesis by simp
qed

text \<open>
  Claim C5 as stated fails for a negative \<open>MaxResults\<close>: the floor applies, and the code
  panics instead of returning hits.
\<close>

theorem floor_negative_max_counterexample:
  "[hit 1 0.5] \<noteq> [] \<and>
   int (length (filtered_hits [hit 1 0.5]
     \<lparr>MaxDistance = lit 1, MinResults = 1, MaxResults = - 1, UseAdaptive = False\<rparr>)) < 1 \<and>
   filterByDistance [hit 1 0.5]
     \<lparr>MaxDistance = lit 1, MinResults = 1, MaxResults = - 1, UseAdaptive = False\<rparr>
     = Panic SliceBoundsOutOfRange"
  by (simp add: filterByDistance_def filtered_hits_def minCount_of_def hit_def float64_eval)

lemma subseq_facts:
  assumes "subseq out results"
  shows "subseq out results \<and> length out \<le> length results \<and> set out \<subseteq> set results \<and>
        (sorted_wrt (\<lambda>a b. fle (Distance a) (Distance b)) results \<longrightarrow>
           sorted_wrt (\<lambda>a b. fle (Distance a) (Distance b)) out)"
  using assms list_emb_length [OF assms] subseq_set [OF assms] subseq_sorted_wrt [OF assms]
  by blast

text \<open>
  Claim C10. \<open>filterByDistance\<close> never returns an error; it panics only for a negative
  \<open>MaxResults\<close>; and whatever it returns is a subsequence of its input (\<open>subseq\<close>: the
  same hits in the same relative order), so it is no longer than the input, holds only
  hits of the input, and is ascending by distance when the input is.
\<close>

theorem filterByDistance_subsequence:
  "(case filterByDistance results opts of
      Ok out \<Rightarrow>
        subseq out results \<and> length out \<le> length results \<and> set out \<subseteq> set results \<and>
        (sorted_wrt (\<lambda>a b. fle (Distance a) (Distance b)) results \<longrightarrow>
           sorted_wrt (\<lambda>a b. fle (Distance a) (Distance b)) out)
    | Err e \<Rightarrow> False
    | Panic p \<Rightarrow> MaxResults opts < 0)"
proof (cases "results = []")
  case True
  then show ?thesis by (simp add: filterByDistance_cases)
next
  case ne: False
  show ?thesis
  proof (cases "MinResults opts \<le> int (length (filtered_hits results opts))")
    case True
    with ne have "filterByDistance results opts = Ok (filtered_hits results opts)"
      by (simp add: filterByDistance_cases)
    then show ?thesis using subseq_facts [OF subseq_filtered_hits [of results opts]] by simp
  next
    case low: False
    show ?thesis
    proof (cases "MaxResults opts < 0")
      case True
      with ne low show ?thesis by (simp add: filterByDistance_cases)
    next
      case False
      with ne low have "filterByDistance results opts =
          Ok (take (nat (min (MinResults opts) (min (int (length results)) (MaxResults opts)))) results)"
        by (simp add: filterByDistance_cases)
      then show ?thesis
        using subseq_facts [OF subseq_take [of "nat (min (MinResults opts) (min (int (length results)) (MaxResults opts)))" results]]
        by simp
    qed
  qed
qed

theorem filterByDistance_subsequence_witness:
  "sorted_wrt (\<lambda>a b. fle (Distance a) (Distance b)) [hit 1 0.1, hit 2 0.5, hit 3 0.2] = False \<and>
   sorted_wrt (\<lambda>a b. fle (Distance a) (Distance b)) [hit 1 0.1, hit 2 0.2, hit 3 0.5] \<and>
   filterByDistance [hit 1 0.1, hit 2 0.2, hit 3 0.5] SearchCodeExact_opts
     = Ok [hit 1 0.1, hit 2 0.2] \<and>
   subseq [hit 1 0.1, hit 2 0.2] [hit 1 0.1, hit 2 0.2, hit 3 0.5] \<and>
   sorted_wrt (\<lambda>a b. fle (Distance a) (Distance b)) [hit 1 0.1, hit 2 0.2]"
proof -
  let ?hits = "[hit 1 0.1, hit 2 0.2, hit 3 0.5]"
  have run: "filterByDistance ?hits SearchCodeExact_opts = Ok [hit 1 0.1, hit 2 0.2]"
    by (simp add: filterByDistance_def filtered_hits_def SearchCodeExact_opts_def hit_def float64_eval)
  have asc: "sorted_wrt (\<lambda>a b. fle (Distance a) (Distance b)) ?hits"
    by (simp add: hit_def float64_eval)
  have "\<not> sorted_wrt (\<lambda>a b. fle (Distance a) (Distance b)) [hit 1 0.1, hit 2 0.5, hit 3 0.2]"
    by (simp add: hit_def float64_eval)
  with filterByDistance_subsequence [of ?hits SearchCodeExact_opts] run asc
  show ?thesis by simp
qed

subsection \<open>The adaptive cutoff\<close>

lemma gap_loop_fold:
  "g \<noteq> NaN \<Longrightarrow>
   gap_loop results i g k = fold (gap_step results) [i..<min 20 (length results)] (g, k)"
proof (induction results i g k rule: gap_loop.induct)
  case (1 results i largestGap gapIndex)
  note nn = \<open>largestGap \<noteq> NaN\<close>
  show ?case
  proof (cases "i < length results \<and> i < 20")
    case inside: True
    then have upt: "[i..<min 20 (length results)] = i # [i + 1..<min 20 (length results)]"
      by (simp add: upt_conv_Cons)
    show ?thesis
    proof (cases "gap_at results i > largestGap")
      case True
      then have gt: "fgt (fsub (Distance (results ! i)) (Distance (results ! (i - 1)))) largestGap"
        using nn by (simp add: gap_at_def fgt_less)
      have gnn: "fsub (Distance (results ! i)) (Distance (results ! (i - 1))) \<noteq> NaN"
        using gt by (rule fgt_not_NaN)
      have "gap_loop results i largestGap gapIndex = gap_loop results (i + 1) (gap_at results i) i"
        using inside gt by (subst gap_loop.simps) (simp add: gap_at_def Let_def)
      also have "\<dots> = fold (gap_step results) [i + 1..<min 20 (length results)] (gap_at results i, i)"
        using 1(1) [OF inside refl gt gnn] by (simp add: gap_at_def)
      also have "gap_step results i (largestGap, gapIndex) = (gap_at results i, i)"
        using True by (simp add: gap_step_def)
      then have "fold (gap_step results) [i + 1..<min 20 (length results)] (gap_at results i, i)
          = fold (gap_step results) [i..<min 20 (length results)] (largestGap, gapIndex)"
        by (simp only: upt fold_simps)
      finally show ?thesis .
    next
      case False
      then have le: "\<not> fgt (fsub (Distance (results ! i)) (Distance (results ! (i - 1)))) largestGap"
        using nn by (simp add: gap_at_def fgt_less)
      have "gap_loop results i largestGap gapIndex = gap_loop results (i + 1) largestGap gapIndex"
        using inside le by (subst gap_loop.simps) (simp add: Let_def)
      also have "\<dots> = fold (gap_step results) [i + 1..<min 20 (length results)] (largestGap, gapIndex)"
        using 1(2) [OF inside refl le nn] .
      also have "gap_step results i (largestGap, gapIndex) = (largestGap, gapIndex)"
        using False by (simp add: gap_step_def)
      then have "fold (gap_step results) [i + 1..<min 20 (length results)] (largestGap, gapIndex)
          = fold (gap_step results) [i..<min 20 (length results)] (largestGap, gapIndex)"
        by (simp only: upt fold_simps)
      finally show ?thesis .
    qed
  next
    case False
    then have e: "[i..<min 20 (length results)] = []" by auto
    have g: "gap_loop results i largestGap gapIndex = (largestGap, gapIndex)"
      by (subst gap_loop.simps) (simp only: False if_False)
    show ?thesis unfolding g e by simp
  qed
qed

lemma fold_max_ge: "(g::'a::linorder) \<le> fold max xs g"
proof (induction xs arbitrary: g)
  case Nil
  show ?case by simp
next
  case (Cons x xs)
  have "g \<le> max x g" by simp
  also have "\<dots> \<le> fold max xs (max x g)" by (rule Cons)
  finally show ?case by simp
qed

lemma fold_gap_step:
  "fold (gap_step results) pairs (g, k) =
     (fold max (map (gap_at results) pairs) g,
      if fold max (map (gap_at results) pairs) g = g then k
      else hd (filter (\<lambda>i. gap_at results i = fold max (map (gap_at results) pairs) g) pairs))"
proof (induction pairs arbitrary: g k)
  case Nil
  show ?case by simp
next
  case (Cons i pairs)
  let ?gap = "gap_at results"
  let ?rest = "map ?gap pairs"
  show ?case
  proof (cases "?gap i > g")
    case True
    then have step: "gap_step results i (g, k) = (?gap i, i)" by (simp add: gap_step_def)
    from True have mx: "max (?gap i) g = ?gap i" by simp
    have ge: "?gap i \<le> fold max ?rest (?gap i)" by (rule fold_max_ge)
    have lhs: "fold (gap_step results) (i # pairs) (g, k) = fold (gap_step results) pairs (?gap i, i)"
      by (simp only: fold_simps step)
    have m: "fold max (map ?gap (i # pairs)) g = fold max ?rest (?gap i)"
      by (simp only: list.map fold_simps mx)
    show ?thesis
    proof (cases "fold max ?rest (?gap i) = ?gap i")
      case True
      with \<open>?gap i > g\<close> show ?thesis unfolding lhs m Cons by auto
    next
      case False
      with ge \<open>?gap i > g\<close> show ?thesis unfolding lhs m Cons by auto
    qed
  next
    case False
    then have step: "gap_step results i (g, k) = (g, k)" by (simp add: gap_step_def)
    from False have mx: "max (?gap i) g = g" by simp
    have lhs: "fold (gap_step results) (i # pairs) (g, k) = fold (gap_step results) pairs (g, k)"
      by (simp only: fold_simps step)
    have m: "fold max (map ?gap (i # pairs)) g = fold max ?rest g"
      by (simp only: list.map fold_simps mx)
    have ge: "g \<le> fold max ?rest g" by (rule fold_max_ge)
    show ?thesis
    proof (cases "fold max ?rest g = g")
      case True
      then show ?thesis unfolding lhs m Cons by simp
    next
      case False
      with ge \<open>\<not> ?gap i > g\<close> show ?thesis unfolding lhs m Cons by auto
    qed
  qed
qed

lemma fold_max_Max:
  assumes "pairs \<noteq> []"
  shows "fold max (map f pairs) (z::'a::linorder) = max z (Max (f ` set pairs))"
proof -
  have "fold max (map f pairs) z = Max (set (z # map f pairs))"
    by (simp only: Max.set_eq_fold)
  also have "\<dots> = Max (insert z (f ` set pairs))" by simp
  also have "\<dots> = max z (Max (f ` set pairs))"
    using assms by (intro Max_insert) auto
  finally show ?thesis .
qed

lemma calculateAdaptiveThreshold_spec_cutoff:
  "calculateAdaptiveThreshold results maxDistance =
     spec_cutoff (pairs_scanned results) results maxDistance"
proof (cases "length results \<le> 1")
  case True
  then have "pairs_scanned results = []" by (simp add: pairs_scanned_def)
  with True show ?thesis by (simp add: calculateAdaptiveThreshold_def spec_cutoff_def)
next
  case False
  let ?pairs = "pairs_scanned results"
  let ?G = "Max (gap_at results ` set ?pairs)"
  let ?M = "fold max (map (gap_at results) ?pairs) (Fin 0)"
  let ?i = "hd (filter (\<lambda>i. gap_at results i = ?G) ?pairs)"
  from False have ne: "?pairs \<noteq> []"
    by (cases results) (auto simp: pairs_scanned_def min_def)
  have M: "?M = max (Fin 0) ?G" by (rule fold_max_Max [OF ne])
  have "gap_loop results 1 (Fin 0) 0 =
      fold (gap_step results) ?pairs (Fin 0, 0)"
    unfolding pairs_scanned_def by (rule gap_loop_fold) simp
  then have loop: "gap_loop results 1 (Fin 0) 0 =
      (?M, if ?M = Fin 0 then 0 else hd (filter (\<lambda>i. gap_at results i = ?M) ?pairs))"
    unfolding fold_gap_step .
  show ?thesis
  proof (cases "fgt ?G (lit 0.05)")
    case True
    then have "lit 0.05 < ?G" by (simp add: fgt_def)
    with lit_005_pos have pos: "Fin 0 < ?G" by (rule less_trans)
    from pos have "Fin 0 \<le> ?G" by (rule less_imp_le)
    then have "max (Fin 0) ?G = ?G" by (rule max_absorb2)
    with M have MG: "?M = ?G" by simp
    from pos have "?G \<noteq> Fin 0" by auto
    with MG have run: "gap_loop results 1 (Fin 0) 0 = (?G, ?i)" unfolding loop by simp
    from False ne True show ?thesis
      unfolding calculateAdaptiveThreshold_def spec_cutoff_def run by (simp add: Let_def)
  next
    case small: False
    have "\<not> fgt ?M (lit 0.05)"
    proof (cases "Fin 0 \<le> ?G")
      case True
      then have "max (Fin 0) ?G = ?G" by (rule max_absorb2)
      with M have "?M = ?G" by simp
      with small show ?thesis by simp
    next
      case False
      then have "?G \<le> Fin 0" by simp
      then have "max (Fin 0) ?G = Fin 0" by (rule max_absorb1)
      with M have "?M = Fin 0" by simp
      moreover have "\<not> fgt (Fin 0) (lit 0.05)"
        using lit_005_pos by (auto simp: fgt_def)
      ultimately show ?thesis by simp
    qed
    then have "calculateAdaptiveThreshold results maxDistance = maxDistance"
      using False unfolding calculateAdaptiveThreshold_def loop by simp
    moreover have "spec_cutoff ?pairs results maxDistance = maxDistance"
      using small ne unfolding spec_cutoff_def by (simp add: Let_def)
    ultimately show ?thesis by simp
  qed
qed

lemma gap_example_cutoff:
  "calculateAdaptiveThreshold gap_example (lit 0.8) = Fin (326510972984361 / 2 ^ 50)"
  by (simp add: calculateAdaptiveThreshold_def gap_example_def hit_def gap_loop.simps float64_eval)

lemma gap_example_sum:
  "fadd (lit 0.13) (fhalve (fsub (lit 0.45) (lit 0.13))) = Fin (326510972984361 / 2 ^ 50)"
  by (simp add: float64_eval)

lemma gap_example_kept:
  "filterByDistance gap_example DefaultSearchOptions = Ok [hit 1 0.1, hit 2 0.12, hit 3 0.13]"
proof -
  have md: "MaxDistance DefaultSearchOptions = lit 0.8" and ad: "UseAdaptive DefaultSearchOptions"
    and mr: "MaxResults DefaultSearchOptions = 20" and mn: "MinResults DefaultSearchOptions = 2"
    by (simp_all add: DefaultSearchOptions_def)
  have "filtered_hits gap_example DefaultSearchOptions =
      filter_loop (Fin (326510972984361 / 2 ^ 50)) 20 gap_example []"
    by (simp only: filtered_hits_def md ad mr if_True gap_example_cutoff)
  also have "\<dots> = [hit 1 0.1, hit 2 0.12, hit 3 0.13]"
    by (simp add: gap_example_def hit_def float64_eval)
  finally have kept: "filtered_hits gap_example DefaultSearchOptions = [hit 1 0.1, hit 2 0.12, hit 3 0.13]" .
  have "gap_example \<noteq> []" by (simp add: gap_example_def)
  then show ?thesis
    by (simp add: filterByDistance_def kept mn)
qed

lemma gap_example_above: "flt (lit 0.29) (Fin (326510972984361 / 2 ^ 50))"
  by (simp add: float64_eval)

lemma far_zero_gap: "fsub (lit 0.2) (lit 0.2) = Fin 0"
  by (simp add: float64_eval)

lemma far_gap: "fsub (lit 0.7) (lit 0.2) = Fin (9007199254740991 / 2 ^ 54)"
  by (simp add: float64_eval)

lemma far_gap_large: "fgt (Fin (9007199254740991 / 2 ^ 54)) (lit 0.05)"
  by (simp add: float64_eval)

lemma far_sum: "fadd (lit 0.2) (fhalve (Fin (9007199254740991 / 2 ^ 54))) = Fin (2026619832316723 / 2 ^ 52)"
  by (simp add: float64_eval)

lemma far_below: "flt (Fin (2026619832316723 / 2 ^ 52)) (lit 0.8)"
  by (simp add: float64_eval)

lemma far_code: "calculateAdaptiveThreshold far_gap_example (lit 0.8) = lit 0.8"
proof -
  have n: "\<not> fgt (Fin 0) (Fin 0)" by (simp add: fgt_def)
  have s: "\<not> fgt (Fin 0) (lit 0.05)" using lit_005_pos by (auto simp: fgt_def)
  from far_zero_gap n s show ?thesis
    by (simp add: calculateAdaptiveThreshold_def far_gap_example_def hit_def gap_loop.simps upt_rec)
qed

lemma far_pairs: "pairs_as_worded far_gap_example = [1..<21]"
  by (simp add: pairs_as_worded_def far_gap_example_def)

lemma far_spec:
  "spec_cutoff (pairs_as_worded far_gap_example) far_gap_example (lit 0.8)
     = Fin (2026619832316723 / 2 ^ 52)"
  unfolding far_pairs
  using far_zero_gap far_gap far_gap_large far_sum far_below
  by (simp add: spec_cutoff_def far_gap_example_def hit_def gap_at_def upt_rec)

text \<open>
  Claim C4, as amended. The adaptive cutoff is the spec's cutoff computed over the
  consecutive pairs among the first \<open>min (20, len)\<close> hits, that is over the indices
  \<open>1 \<le> i < min (20, len)\<close> (at most 19 pairs), with the first index taken when the
  largest gap occurs more than once, and with the gap, its half and the sum rounded to
  binary64. For the distances \<open>[0.1, 0.12, 0.13, 0.45, 0.46]\<close> and
  \<open>maxDistance = 0.8\<close> the cutoff is the rounded sum \<open>0.13 + (0.45 - 0.13) / 2\<close>, the
  binary64 number \<open>326510972984361 / 2\<^bsup>50\<^esup>\<close> (printed \<open>0.29000000000000004\<close>), and
  with the default options exactly the first three hits are kept.
\<close>

theorem adaptive_cutoff_scans_first_twenty_hits:
  "calculateAdaptiveThreshold results maxDistance =
     spec_cutoff (pairs_scanned results) results maxDistance \<and>
   calculateAdaptiveThreshold gap_example (lit 0.8) =
     fadd (lit 0.13) (fhalve (fsub (lit 0.45) (lit 0.13))) \<and>
   calculateAdaptiveThreshold gap_example (lit 0.8) = Fin (326510972984361 / 2 ^ 50) \<and>
   filterByDistance gap_example DefaultSearchOptions = Ok (take 3 gap_example)"
proof -
  have "take 3 gap_example = [hit 1 0.1, hit 2 0.12, hit 3 0.13]"
    by (simp add: gap_example_def)
  with calculateAdaptiveThreshold_spec_cutoff [of results maxDistance]
    gap_example_cutoff gap_example_kept gap_example_sum
  show ?thesis by (simp only: simp_thms)
qed

text \<open>
  Claim C4 as stated names the first \<open>min (20, len)\<close> consecutive pairs. With 21 hits
  these are the pairs at \<open>i = 1, \<dots>, 20\<close>; the loop stops at \<open>i = 19\<close> and never sees
  the gap between the hits at indices 19 and 20: over the pairs of the claim the cutoff
  is below \<open>0.8\<close>, and the loop returns \<open>0.8\<close>. In the claim's example the cutoff is
  above the binary64 number \<open>0.29\<close>.
\<close>

theorem adaptive_cutoff_twenty_pairs_counterexample:
  "length far_gap_example = 21 \<and>
   pairs_as_worded far_gap_example = [1..<21] \<and>
   spec_cutoff (pairs_as_worded far_gap_example) far_gap_example (lit 0.8)
     = fadd (lit 0.2) (fhalve (fsub (lit 0.7) (lit 0.2))) \<and>
   flt (spec_cutoff (pairs_as_worded far_gap_example) far_gap_example (lit 0.8)) (lit 0.8) \<and>
   calculateAdaptiveThreshold far_gap_example (lit 0.8) = lit 0.8 \<and>
   flt (lit 0.29) (calculateAdaptiveThreshold gap_example (lit 0.8))"
proof -
  have "length far_gap_example = 21" by (simp add: far_gap_example_def)
  moreover note far_pairs
  moreover have "spec_cutoff (pairs_as_worded far_gap_example) far_gap_example (lit 0.8)
     = fadd (lit 0.2) (fhalve (fsub (lit 0.7) (lit 0.2)))"
    by (simp only: far_spec far_gap far_sum)
  moreover have "flt (spec_cutoff (pairs_as_worded far_gap_example) far_gap_example (lit 0.8)) (lit 0.8)"
    by (simp only: far_spec far_below)
  moreover note far_code
  moreover have "flt (lit 0.29) (calculateAdaptiveThreshold gap_example (lit 0.8))"
    by (simp only: gap_example_cutoff gap_example_above)
  ultimately show ?thesis by (intro conjI)
qed

text \<open>
  Rounding decides which gap is the largest and whether a gap exceeds \<open>0.05\<close>. The two
  gaps of the distances \<open>2\<^bsup>-60\<^esup>\<close>, \<open>0.5\<close>, \<open>1\<close> both round to \<open>0.5\<close>, so the
  first of them gives the cutoff; the gap between \<open>1\<close> and \<open>1.05\<close> rounds to a number
  above \<open>0.05\<close>.
\<close>

lemma rounded_gap_examples:
  "calculateAdaptiveThreshold [hit 1 (1 / 2 ^ 60), hit 2 0.5, hit 3 1] (lit 0.8) = Fin (1 / 4) \<and>
   calculateAdaptiveThreshold [hit 1 1, hit 2 1.05] (Fin 2) = lit 1.025"
  by (simp add: calculateAdaptiveThreshold_def hit_def gap_loop.simps float64_eval)

subsection \<open>Non-adaptive filtering\<close>

lemma calculateAdaptiveThreshold_within:
  "calculateAdaptiveThreshold results maxThreshold = maxThreshold \<or>
   flt (calculateAdaptiveThreshold results maxThreshold) maxThreshold"
  by (simp add: calculateAdaptiveThreshold_def Let_def split: prod.split)

lemma fle_threshold_of:
  assumes "fle d (threshold_of results opts)"
  shows "fle d (MaxDistance opts)"
proof (cases "UseAdaptive opts")
  case True
  then have t: "threshold_of results opts = calculateAdaptiveThreshold results (MaxDistance opts)"
    by (simp add: threshold_of_def)
  from calculateAdaptiveThreshold_within [of results "MaxDistance opts"] show ?thesis
  proof
    assume "calculateAdaptiveThreshold results (MaxDistance opts) = MaxDistance opts"
    with assms t show ?thesis by simp
  next
    assume "flt (calculateAdaptiveThreshold results (MaxDistance opts)) (MaxDistance opts)"
    with assms t show ?thesis by (simp add: fle_flt_trans)
  qed
next
  case False
  with assms show ?thesis by (simp add: threshold_of_def)
qed

lemma filtered_hits_within:
  assumes "r \<in> set (filtered_hits results opts)"
  shows "fle (Distance r) (threshold_of results opts)"
proof -
  from assms have "r \<in> set (filter (\<lambda>r. fle (Distance r) (threshold_of results opts)) results)"
    unfolding filtered_hits_eq by (rule in_set_takeD)
  then show ?thesis by simp
qed

lemma length_filtered_hits: "int (length (filtered_hits results opts)) \<le> max 0 (MaxResults opts)"
  unfolding filtered_hits_eq by simp

text \<open>
  Claim C3, as amended. Without the adaptive cutoff the filtering keeps the hits within
  \<open>MaxDistance\<close> and truncates them to \<open>MaxResults\<close>. \<open>filterByDistance\<close> returns at
  most \<open>MaxResults\<close> hits whenever \<open>MaxResults \<ge> 0\<close>. When the floor does not apply,
  that is, when the hit list is empty or at least \<open>MinResults\<close> hits are left after
  filtering and truncation, it returns the hits that are left, and each of them is
  within \<open>MaxDistance\<close>. When the floor applies, it returns the first
  \<open>min (MinResults, len, MaxResults)\<close> raw hits whatever their distance if
  \<open>MaxResults \<ge> 0\<close>, and panics if \<open>MaxResults < 0\<close>.
\<close>

theorem nonadaptive_bounds:
  assumes "\<not> UseAdaptive opts"
  shows "filtered_hits results opts =
           take (nat (MaxResults opts)) (filter (\<lambda>r. fle (Distance r) (MaxDistance opts)) results) \<and>
         (0 \<le> MaxResults opts \<longrightarrow>
            (\<exists>out. filterByDistance results opts = Ok out \<and> int (length out) \<le> MaxResults opts)) \<and>
         (results = [] \<or> MinResults opts \<le> int (length (filtered_hits results opts)) \<longrightarrow>
            filterByDistance results opts = Ok (filtered_hits results opts) \<and>
            (\<forall>r \<in> set (filtered_hits results opts). fle (Distance r) (MaxDistance opts))) \<and>
         (results \<noteq> [] \<and> int (length (filtered_hits results opts)) < MinResults opts \<longrightarrow>
            filterByDistance results opts =
              (if MaxResults opts < 0 then Panic SliceBoundsOutOfRange
               else Ok (take (nat (min (MinResults opts) (min (int (length results)) (MaxResults opts))))
                          results)))"
proof (intro conjI impI)
  show "filtered_hits results opts =
      take (nat (MaxResults opts)) (filter (\<lambda>r. fle (Distance r) (MaxDistance opts)) results)"
    using assms by (simp add: filtered_hits_eq threshold_of_def)
next
  assume nn: "0 \<le> MaxResults opts"
  show "\<exists>out. filterByDistance results opts = Ok out \<and> int (length out) \<le> MaxResults opts"
  proof (cases "results = [] \<or> MinResults opts \<le> int (length (filtered_hits results opts))")
    case True
    then have "filterByDistance results opts = Ok (filtered_hits results opts)"
      by (auto simp: filterByDistance_cases filtered_hits_eq)
    moreover have "int (length (filtered_hits results opts)) \<le> MaxResults opts"
      using length_filtered_hits [of results opts] nn by simp
    ultimately show ?thesis by simp
  next
    case False
    with nn have "filterByDistance results opts =
        Ok (take (nat (min (MinResults opts) (min (int (length results)) (MaxResults opts)))) results)"
      by (simp add: filterByDistance_cases)
    moreover have "int (length (take (nat (min (MinResults opts) (min (int (length results)) (MaxResults opts)))) results))
        \<le> MaxResults opts"
    proof -
      let ?k = "min (MinResults opts) (min (int (length results)) (MaxResults opts))"
      have "length (take (nat ?k) results) \<le> nat ?k" by simp
      then have "int (length (take (nat ?k) results)) \<le> max 0 ?k" by linarith
      also have "\<dots> \<le> MaxResults opts" using nn by simp
      finally show ?thesis .
    qed
    ultimately show ?thesis by simp
  qed
next
  assume "results = [] \<or> MinResults opts \<le> int (length (filtered_hits results opts))"
  then show "filterByDistance results opts = Ok (filtered_hits results opts)"
    by (auto simp: filterByDistance_cases filtered_hits_eq)
next
  assume "results = [] \<or> MinResults opts \<le> int (length (filtered_hits results opts))"
  show "\<forall>r \<in> set (filtered_hits results opts). fle (Distance r) (MaxDistance opts)"
  proof
    fix r assume "r \<in> set (filtered_hits results opts)"
    then have "fle (Distance r) (threshold_of results opts)" by (rule filtered_hits_within)
    then show "fle (Distance r) (MaxDistance opts)" by (rule fle_threshold_of)
  qed
next
  assume "results \<noteq> [] \<and> int (length (filtered_hits results opts)) < MinResults opts"
  then show "filterByDistance results opts =
              (if MaxResults opts < 0 then Panic SliceBoundsOutOfRange
               else Ok (take (nat (min (MinResults opts) (min (int (length results)) (MaxResults opts))))
                          results))"
    by (simp add: filterByDistance_cases)
qed

theorem nonadaptive_bounds_witness:
  "\<not> UseAdaptive SearchCodeExact_opts \<and> 0 \<le> MaxResults SearchCodeExact_opts \<and>
   MinResults SearchCodeExact_opts
     \<le> int (length (filtered_hits [hit 1 0.1, hit 2 0.2, hit 3 0.5] SearchCodeExact_opts)) \<and>
   filterByDistance [hit 1 0.1, hit 2 0.2, hit 3 0.5] SearchCodeExact_opts
     = Ok [hit 1 0.1, hit 2 0.2] \<and>
   fle (Distance (hit 1 0.1)) (MaxDistance SearchCodeExact_opts) \<and>
   fle (Distance (hit 2 0.2)) (MaxDistance SearchCodeExact_opts) \<and>
   [hit 1 0.5, hit 2 0.6] \<noteq> [] \<and>
   int (length (filtered_hits [hit 1 0.5, hit 2 0.6] SearchCodeExact_opts))
     < MinResults SearchCodeExact_opts \<and>
   filterByDistance [hit 1 0.5, hit 2 0.6] SearchCodeExact_opts = Ok [hit 1 0.5]"
proof -
  let ?hits = "[hit 1 0.1, hit 2 0.2, hit 3 0.5]"
  let ?far = "[hit 1 0.5, hit 2 0.6]"
  have a: "\<not> UseAdaptive SearchCodeExact_opts" and n: "0 \<le> MaxResults SearchCodeExact_opts"
    by (simp_all add: SearchCodeExact_opts_def)
  have kept: "filtered_hits ?hits SearchCodeExact_opts = [hit 1 0.1, hit 2 0.2]"
    by (simp add: filtered_hits_def SearchCodeExact_opts_def hit_def float64_eval)
  have k: "MinResults SearchCodeExact_opts \<le> int (length (filtered_hits ?hits SearchCodeExact_opts))"
    unfolding kept by (simp add: SearchCodeExact_opts_def)
  have none: "filtered_hits ?far SearchCodeExact_opts = []"
    by (simp add: filtered_hits_def SearchCodeExact_opts_def hit_def float64_eval)
  have few: "?far \<noteq> [] \<and> int (length (filtered_hits ?far SearchCodeExact_opts))
      < MinResults SearchCodeExact_opts"
    unfolding none by (simp add: SearchCodeExact_opts_def)
  have mn: "MinResults SearchCodeExact_opts = 1" and mx: "MaxResults SearchCodeExact_opts = 10"
    by (simp_all add: SearchCodeExact_opts_def)
  from nonadaptive_bounds [OF a, of ?hits] k
  have run: "filterByDistance ?hits SearchCodeExact_opts = Ok (filtered_hits ?hits SearchCodeExact_opts)"
    and within: "\<forall>r \<in> set (filtered_hits ?hits SearchCodeExact_opts).
        fle (Distance r) (MaxDistance SearchCodeExact_opts)"
    by blast+
  from nonadaptive_bounds [OF a, of ?far] few
  have "filterByDistance ?far SearchCodeExact_opts =
      (if MaxResults SearchCodeExact_opts < 0 then Panic SliceBoundsOutOfRange
       else Ok (take (nat (min (MinResults SearchCodeExact_opts)
                  (min (int (length ?far)) (MaxResults SearchCodeExact_opts)))) ?far))"
    by blast
  then have floor: "filterByDistance ?far SearchCodeExact_opts = Ok [hit 1 0.5]"
    by (simp add: mn mx)
  from within have w1: "fle (Distance (hit 1 0.1)) (MaxDistance SearchCodeExact_opts)"
    and w2: "fle (Distance (hit 2 0.2)) (MaxDistance SearchCodeExact_opts)"
    unfolding kept by simp_all
  from run have r: "filterByDistance ?hits SearchCodeExact_opts = Ok [hit 1 0.1, hit 2 0.2]"
    unfolding kept .
  from few have f1: "?far \<noteq> []" and
    f2: "int (length (filtered_hits ?far SearchCodeExact_opts)) < MinResults SearchCodeExact_opts"
    by blast+
  from a n k r w1 w2 f1 f2 floor show ?thesis by (intro conjI)
qed

text \<open>
  Claim C3 as stated fails when the floor applies: with the options of
  \<^verbatim>\<open>SearchCodeExact\<close> a single hit at distance \<open>0.9\<close> is returned although
  \<open>MaxDistance\<close> is \<open>0.3\<close>.
\<close>

theorem nonadaptive_floor_counterexample:
  "\<not> UseAdaptive SearchCodeExact_opts \<and>
   filterByDistance [hit 1 0.9] SearchCodeExact_opts = Ok [hit 1 0.9] \<and>
   \<not> fle (Distance (hit 1 0.9)) (MaxDistance SearchCodeExact_opts)"
  by (simp add: filterByDistance_def filtered_hits_def minCount_of_def SearchCodeExact_opts_def hit_def
      float64_eval)

subsection \<open>Similarity search\<close>

lemma scan_loop_Inr:
  "scan_loop rows acc = Inr out \<longleftrightarrow> (\<exists>raw. rows = map Inr raw \<and> out = acc @ raw)"
proof (induction rows arbitrary: acc)
  case Nil
  show ?case by auto
next
  case (Cons row rows)
  show ?case
  proof (cases row)
    case (Inl err)
    then show ?thesis by (auto simp: map_eq_Cons_conv)
  next
    case (Inr result)
    have "scan_loop (row # rows) acc = Inr out \<longleftrightarrow>
        (\<exists>raw. rows = map Inr raw \<and> out = (acc @ [result]) @ raw)"
      using Cons [of "acc @ [result]"] Inr by simp
    also have "\<dots> \<longleftrightarrow> (\<exists>raw. row # rows = map Inr raw \<and> out = acc @ raw)"
      using Inr by (auto simp: map_eq_Cons_conv)
    finally show ?thesis .
  qed
qed

lemma SearchWithThreshold_Ok:
  assumes "SearchWithThreshold index embeddings opts = Ok kept"
  shows "\<exists>embeddingBytes rows raw.
           SerializeFloat32 index embeddings = Inr embeddingBytes \<and>
           Query index embeddingBytes (initialLimit_of opts) = Inr rows \<and>
           Scan rows = map Inr raw \<and> rows_Err rows = None \<and>
           filterByDistance raw opts = Ok kept"
proof -
  from assms obtain embeddingBytes rows allResults where
    s: "SerializeFloat32 index embeddings = Inr embeddingBytes" and
    q: "Query index embeddingBytes (initialLimit_of opts) = Inr rows" and
    l: "scan_loop (Scan rows) [] = Inr allResults" and
    e: "rows_Err rows = None" and
    f: "filterByDistance allResults opts = Ok kept"
    unfolding SearchWithThreshold_def by (auto split: sum.splits option.splits)
  from l have "Scan rows = map Inr allResults" by (simp add: scan_loop_Inr)
  with s q e f show ?thesis by blast
qed

lemma SearchWithSimilarity_Ok:
  assumes "SearchWithSimilarity index embeddings s m = Ok out"
  shows "\<exists>embeddingBytes rows raw kept.
           SerializeFloat32 index embeddings = Inr embeddingBytes \<and>
           Query index embeddingBytes (initialLimit_of (similarity_opts s m)) = Inr rows \<and>
           Scan rows = map Inr raw \<and> rows_Err rows = None \<and>
           filterByDistance raw (similarity_opts s m) = Ok kept \<and>
           out = map to_similarity kept"
proof -
  from assms obtain kept where
    st: "SearchWithThreshold index embeddings (similarity_opts s m) = Ok kept" and
    out: "out = map to_similarity kept"
    unfolding SearchWithSimilarity_def similarity_opts_def Let_def to_similarity_def
    by (auto split: result.splits)
  from SearchWithThreshold_Ok [OF st] out show ?thesis by blast
qed

lemma find_search_eq:
  "find_search index embeddings = Ok out \<Longrightarrow>
   SearchWithSimilarity index embeddings (lit 0.03) 10 = Ok out"
  unfolding find_search_def Let_def by (auto split: result.splits)

lemma find_threshold: "fsub (Fin 1) (lit 0.03) = lit 0.97"
  by (simp add: float64_eval)

lemma find_opts: "similarity_opts (lit 0.03) 10 =
    \<lparr>MaxDistance = lit 0.97, MinResults = 1, MaxResults = 10, UseAdaptive = True\<rparr>"
  unfolding similarity_opts_def find_threshold ..

lemma find_limit: "initialLimit_of (similarity_opts (lit 0.03) 10) = 100"
  by (simp add: initialLimit_of_def similarity_opts_def wrap64_def)

text \<open>
  Claim C8. Whenever \<open>SearchWithSimilarity\<close> returns, the index was queried, the raw
  hits were filtered by \<open>filterByDistance\<close> under options whose \<open>MaxDistance\<close> is the
  binary64 difference \<open>1 - s\<close>, and each returned result is a kept hit with its
  distance \<open>d\<close> replaced by the binary64 difference \<open>1 - d\<close>; when at least one hit
  passes the filter, every kept distance is at most that \<open>MaxDistance\<close>. For the
  threshold \<open>0.03\<close> of the \<^verbatim>\<open>find\<close> command the difference is the binary64 number
  \<open>0.97\<close>: the command asks for 100 candidates and filters them with
  \<open>MaxDistance = 0.97\<close>.
\<close>

theorem similarity_distance_conversion:
  "(SearchWithSimilarity index embeddings s m = Ok out \<longrightarrow>
      (\<exists>embeddingBytes rows raw kept.
          SerializeFloat32 index embeddings = Inr embeddingBytes \<and>
          Query index embeddingBytes (initialLimit_of (similarity_opts s m)) = Inr rows \<and>
          Scan rows = map Inr raw \<and> rows_Err rows = None \<and>
          filterByDistance raw (similarity_opts s m) = Ok kept \<and>
          MaxDistance (similarity_opts s m) = fsub (Fin 1) s \<and>
          out = map to_similarity kept \<and>
          map Distance out = map (\<lambda>r. fsub (Fin 1) (Distance r)) kept \<and>
          (1 \<le> int (length (filtered_hits raw (similarity_opts s m))) \<longrightarrow>
             (\<forall>r \<in> set kept. fle (Distance r) (fsub (Fin 1) s))))) \<and>
   fsub (Fin 1) (lit 0.03) = lit 0.97 \<and>
   (find_search index embeddings = Ok found \<longrightarrow>
      (\<exists>embeddingBytes rows raw kept.
          SerializeFloat32 index embeddings = Inr embeddingBytes \<and>
          Query index embeddingBytes 100 = Inr rows \<and>
          Scan rows = map Inr raw \<and> rows_Err rows = None \<and>
          filterByDistance raw
            \<lparr>MaxDistance = lit 0.97, MinResults = 1, MaxResults = 10, UseAdaptive = True\<rparr> = Ok kept \<and>
          found = map to_similarity kept))"
proof (intro conjI impI)
  let ?opts = "similarity_opts s m"
  assume "SearchWithSimilarity index embeddings s m = Ok out"
  from SearchWithSimilarity_Ok [OF this] obtain embeddingBytes rows raw kept where
    ser: "SerializeFloat32 index embeddings = Inr embeddingBytes" and
    qry: "Query index embeddingBytes (initialLimit_of ?opts) = Inr rows" and
    scn: "Scan rows = map Inr raw" and err: "rows_Err rows = None" and
    kept: "filterByDistance raw ?opts = Ok kept" and
    out: "out = map to_similarity kept" by blast
  have md: "MaxDistance ?opts = fsub (Fin 1) s" by (simp add: similarity_opts_def)
  have ds: "map Distance out = map (\<lambda>r. fsub (Fin 1) (Distance r)) kept"
    by (simp add: out to_similarity_def)
  have within: "\<forall>r \<in> set kept. fle (Distance r) (fsub (Fin 1) s)"
    if enough: "1 \<le> int (length (filtered_hits raw ?opts))"
  proof
    fix r assume r: "r \<in> set kept"
    have mn: "MinResults ?opts = 1" by (simp add: similarity_opts_def)
    from enough have "raw \<noteq> []" by (auto simp: filtered_hits_eq)
    with enough kept have k: "kept = filtered_hits raw ?opts"
      by (simp add: filterByDistance_cases mn)
    from r have "fle (Distance r) (threshold_of raw ?opts)"
      unfolding k by (rule filtered_hits_within)
    then have "fle (Distance r) (MaxDistance ?opts)" by (rule fle_threshold_of)
    then show "fle (Distance r) (fsub (Fin 1) s)" by (simp only: md)
  qed
  from ser qry scn err kept md out ds within
  show "\<exists>embeddingBytes rows raw kept.
          SerializeFloat32 index embeddings = Inr embeddingBytes \<and>
          Query index embeddingBytes (initialLimit_of ?opts) = Inr rows \<and>
          Scan rows = map Inr raw \<and> rows_Err rows = None \<and>
          filterByDistance raw ?opts = Ok kept \<and>
          MaxDistance ?opts = fsub (Fin 1) s \<and>
          out = map to_similarity kept \<and>
          map Distance out = map (\<lambda>r. fsub (Fin 1) (Distance r)) kept \<and>
          (1 \<le> int (length (filtered_hits raw ?opts)) \<longrightarrow>
             (\<forall>r \<in> set kept. fle (Distance r) (fsub (Fin 1) s)))"
    by blast
next
  show "fsub (Fin 1) (lit 0.03) = lit 0.97" by (rule find_threshold)
next
  assume "find_search index embeddings = Ok found"
  then have "SearchWithSimilarity index embeddings (lit 0.03) 10 = Ok found" by (rule find_search_eq)
  from SearchWithSimilarity_Ok [OF this] obtain embeddingBytes rows raw kept where
    ser: "SerializeFloat32 index embeddings = Inr embeddingBytes" and
    qry: "Query index embeddingBytes (initialLimit_of (similarity_opts (lit 0.03) 10)) = Inr rows" and
    scn: "Scan rows = map Inr raw" and err: "rows_Err rows = None" and
    kept: "filterByDistance raw (similarity_opts (lit 0.03) 10) = Ok kept" and
    found: "found = map to_similarity kept" by blast
  from qry have "Query index embeddingBytes 100 = Inr rows" by (simp only: find_limit)
  moreover from kept have "filterByDistance raw
      \<lparr>MaxDistance = lit 0.97, MinResults = 1, MaxResults = 10, UseAdaptive = True\<rparr> = Ok kept"
    by (simp only: find_opts)
  ultimately show "\<exists>embeddingBytes rows raw kept.
          SerializeFloat32 index embeddings = Inr embeddingBytes \<and>
          Query index embeddingBytes 100 = Inr rows \<and>
          Scan rows = map Inr raw \<and> rows_Err rows = None \<and>
          filterByDistance raw
            \<lparr>MaxDistance = lit 0.97, MinResults = 1, MaxResults = 10, UseAdaptive = True\<rparr> = Ok kept \<and>
          found = map to_similarity kept"
    using ser scn err found by blast
qed

lemma find_example_filtered:
  "filtered_hits [hit 1 0.1, hit 2 0.5, hit 3 0.99] (similarity_opts (lit 0.03) 10)
     = [hit 1 0.1, hit 2 0.5]"
  unfolding find_opts
  by (simp add: filtered_hits_def calculateAdaptiveThreshold_def gap_loop.simps hit_def float64_eval)

lemma find_example_threshold:
  "SearchWithThreshold (index_of [hit 1 0.1, hit 2 0.5, hit 3 0.99]) [] (similarity_opts (lit 0.03) 10)
     = Ok [hit 1 0.1, hit 2 0.5]"
proof -
  have "filterByDistance [hit 1 0.1, hit 2 0.5, hit 3 0.99] (similarity_opts (lit 0.03) 10)
      = Ok [hit 1 0.1, hit 2 0.5]"
    by (simp only: filterByDistance_cases find_example_filtered) (simp add: similarity_opts_def)
  then show ?thesis
    by (simp add: SearchWithThreshold_def index_of_def)
qed

lemma find_example_similarity:
  "SearchWithSimilarity (index_of [hit 1 0.1, hit 2 0.5, hit 3 0.99]) [] (lit 0.03) 10
     = Ok [hit 1 0.9, hit 2 0.5]"
proof -
  have "map to_similarity [hit 1 0.1, hit 2 0.5] = [hit 1 0.9, hit 2 0.5]"
    by (simp add: to_similarity_def hit_def float64_eval)
  then show ?thesis
    using find_example_threshold
    by (simp add: SearchWithSimilarity_def similarity_opts_def to_similarity_def)
qed

theorem similarity_distance_conversion_witness:
  "SearchWithSimilarity (index_of [hit 1 0.1, hit 2 0.5, hit 3 0.99]) [] (lit 0.03) 10
     = Ok [hit 1 0.9, hit 2 0.5] \<and>
   find_search (index_of [hit 1 0.1, hit 2 0.5, hit 3 0.99]) [] = Ok [hit 1 0.9, hit 2 0.5] \<and>
   1 \<le> int (length (filtered_hits [hit 1 0.1, hit 2 0.5, hit 3 0.99] (similarity_opts (lit 0.03) 10))) \<and>
   (\<exists>embeddingBytes rows kept.
      SerializeFloat32 (index_of [hit 1 0.1, hit 2 0.5, hit 3 0.99]) [] = Inr embeddingBytes \<and>
      Query (index_of [hit 1 0.1, hit 2 0.5, hit 3 0.99]) embeddingBytes 100 = Inr rows \<and>
      Scan rows = map Inr [hit 1 0.1, hit 2 0.5, hit 3 0.99] \<and> rows_Err rows = None \<and>
      filterByDistance [hit 1 0.1, hit 2 0.5, hit 3 0.99]
        \<lparr>MaxDistance = lit 0.97, MinResults = 1, MaxResults = 10, UseAdaptive = True\<rparr> = Ok kept \<and>
      [hit 1 0.9, hit 2 0.5] = map to_similarity kept \<and>
      list_all (\<lambda>r. fle (Distance r) (lit 0.97)) kept)"
proof -
  let ?hits = "[hit 1 0.1, hit 2 0.5, hit 3 0.99]"
  let ?out = "[hit 1 0.9, hit 2 0.5]"
  note sim = find_example_similarity
  have fnd: "find_search (index_of ?hits) [] = Ok ?out"
    using sim by (simp add: find_search_def)
  have enough: "1 \<le> int (length (filtered_hits ?hits (similarity_opts (lit 0.03) 10)))"
    unfolding find_example_filtered by simp
  have raw: "raw = ?hits" if "Scan rows = map Inr raw"
      and "Query (index_of ?hits) embeddingBytes k = Inr rows" for raw rows embeddingBytes k
  proof -
    from that(2) have "Scan rows = map Inr ?hits" by (auto simp: index_of_def)
    with that(1) have "map (Inr :: SearchResult \<Rightarrow> error + SearchResult) raw = map Inr ?hits"
      by simp
    then show ?thesis by (simp only: inj_map_eq_map [OF inj_Inr])
  qed
  note claim = similarity_distance_conversion
    [of "index_of ?hits" "[]" "lit 0.03" 10 ?out ?out]
  from claim [THEN conjunct1, THEN mp, OF sim]
  obtain b1 rows1 raw1 kept1 where
    q1: "Query (index_of ?hits) b1 (initialLimit_of (similarity_opts (lit 0.03) 10)) = Inr rows1" and
    s1: "Scan rows1 = map Inr raw1" and
    k1: "filterByDistance raw1 (similarity_opts (lit 0.03) 10) = Ok kept1" and
    o1: "?out = map to_similarity kept1" and
    w1: "1 \<le> int (length (filtered_hits raw1 (similarity_opts (lit 0.03) 10))) \<longrightarrow>
           (\<forall>r \<in> set kept1. fle (Distance r) (fsub (Fin 1) (lit 0.03)))"
    by (elim exE conjE) (rule that; assumption)
  from claim have e: "fsub (Fin 1) (lit 0.03) = lit 0.97"
    by (rule conjunct2 [THEN conjunct1])
  from claim [THEN conjunct2, THEN conjunct2, THEN mp, OF fnd]
  obtain b2 rows2 raw2 kept2 where
    ser: "SerializeFloat32 (index_of ?hits) [] = Inr b2" and
    q2: "Query (index_of ?hits) b2 100 = Inr rows2" and
    s2: "Scan rows2 = map Inr raw2" and err: "rows_Err rows2 = None" and
    k2: "filterByDistance raw2
      \<lparr>MaxDistance = lit 0.97, MinResults = 1, MaxResults = 10, UseAdaptive = True\<rparr> = Ok kept2" and
    o2: "?out = map to_similarity kept2"
    by (elim exE conjE) (rule that; assumption)
  have r1: "raw1 = ?hits" using s1 q1 by (rule raw)
  have r2: "raw2 = ?hits" using s2 q2 by (rule raw)
  from k1 k2 have "kept1 = kept2" unfolding r1 r2 find_opts by simp
  with w1 enough have "\<forall>r \<in> set kept2. fle (Distance r) (lit 0.97)"
    unfolding r1 e by simp
  then have all: "list_all (\<lambda>r. fle (Distance r) (lit 0.97)) kept2"
    by (simp add: list_all_iff)
  from ser q2 s2 [unfolded r2] err k2 [unfolded r2] o2 all
  have "\<exists>embeddingBytes rows kept.
      SerializeFloat32 (index_of ?hits) [] = Inr embeddingBytes \<and>
      Query (index_of ?hits) embeddingBytes 100 = Inr rows \<and>
      Scan rows = map Inr ?hits \<and> rows_Err rows = None \<and>
      filterByDistance ?hits
        \<lparr>MaxDistance = lit 0.97, MinResults = 1, MaxResults = 10, UseAdaptive = True\<rparr> = Ok kept \<and>
      ?out = map to_similarity kept \<and>
      list_all (\<lambda>r. fle (Distance r) (lit 0.97)) kept"
    by - (rule exI conjI | assumption)+
  with sim fnd enough show ?thesis by (intro conjI)
qed

text \<open>
  The two differences are rounded, so a hit that passes the filter can be reported with
  a similarity below the threshold. For \<open>s = 2\<^bsup>-60\<^esup>\<close> the distance threshold \<open>1 - s\<close>
  is \<open>1\<close>; a hit at distance \<open>1\<close> passes and is reported with similarity \<open>0\<close>.
\<close>

lemma similarity_rounding_example:
  "MaxDistance (similarity_opts (Fin (1 / 2 ^ 60)) 10) = Fin 1 \<and>
   SearchWithSimilarity (index_of [hit 1 0.98, hit 2 1]) [] (Fin (1 / 2 ^ 60)) 10
     = Ok [\<lparr>ID = 1, File = ''f.go'', Distance = Fin (45035996273705 / 2 ^ 51)\<rparr>,
           \<lparr>ID = 2, File = ''f.go'', Distance = Fin 0\<rparr>] \<and>
   flt (Fin 0) (Fin (1 / 2 ^ 60))"
proof -
  have md: "fsub (Fin 1) (Fin (1 / 2 ^ 60)) = Fin 1"
    by (simp add: float64_eval)
  have "filterByDistance [hit 1 0.98, hit 2 1]
      \<lparr>MaxDistance = Fin 1, MinResults = 1, MaxResults = 10, UseAdaptive = True\<rparr>
      = Ok [hit 1 0.98, hit 2 1]"
    by (simp add: filterByDistance_def filtered_hits_def calculateAdaptiveThreshold_def
        gap_loop.simps hit_def float64_eval)
  then have "SearchWithThreshold (index_of [hit 1 0.98, hit 2 1]) []
      \<lparr>MaxDistance = Fin 1, MinResults = 1, MaxResults = 10, UseAdaptive = True\<rparr>
      = Ok [hit 1 0.98, hit 2 1]"
    by (simp add: SearchWithThreshold_def index_of_def)
  moreover have "map to_similarity [hit 1 0.98, hit 2 1] =
      [\<lparr>ID = 1, File = ''f.go'', Distance = Fin (45035996273705 / 2 ^ 51)\<rparr>,
       \<lparr>ID = 2, File = ''f.go'', Distance = Fin 0\<rparr>]"
    by (simp add: to_similarity_def hit_def float64_eval)
  ultimately have "SearchWithSimilarity (index_of [hit 1 0.98, hit 2 1]) [] (Fin (1 / 2 ^ 60)) 10
     = Ok [\<lparr>ID = 1, File = ''f.go'', Distance = Fin (45035996273705 / 2 ^ 51)\<rparr>,
           \<lparr>ID = 2, File = ''f.go'', Distance = Fin 0\<rparr>]"
    using md by (simp add: SearchWithSimilarity_def to_similarity_def)
  moreover have "MaxDistance (similarity_opts (Fin (1 / 2 ^ 60)) 10) = Fin 1"
    using md by (simp add: similarity_opts_def)
  moreover have "flt (Fin 0) (Fin (1 / 2 ^ 60))" by (simp add: flt_def)
  ultimately show ?thesis by (intro conjI)
qed

section \<open>Properties of the reconciliation\<close>

subsection \<open>The fault script\<close>

lemma no_storage_failure_iff:
  "no_storage_failure F F' \<longleftrightarrow> (\<exists>n. F = replicate n False @ F')"
proof
  assume "no_storage_failure F F'"
  then show "\<exists>n. F = replicate n False @ F'" unfolding no_storage_failure_def by blast
next
  assume "\<exists>n. F = replicate n False @ F'"
  then obtain n where n: "F = replicate n False @ F'" by blast
  then have "length F - length F' = n" by simp
  with n show "no_storage_failure F F'" unfolding no_storage_failure_def by simp
qed

lemma stopped_at_storage_failure_iff:
  "stopped_at_storage_failure F F' \<longleftrightarrow> (\<exists>n. F = replicate n False @ True # F')"
proof
  assume "stopped_at_storage_failure F F'"
  then show "\<exists>n. F = replicate n False @ True # F'"
    unfolding stopped_at_storage_failure_def by blast
next
  assume "\<exists>n. F = replicate n False @ True # F'"
  then obtain n where n: "F = replicate n False @ True # F'" by blast
  then have "length F - Suc (length F') = n" by simp
  with n show "stopped_at_storage_failure F F'"
    unfolding stopped_at_storage_failure_def by simp
qed

lemma no_storage_failure_refl: "no_storage_failure F F"
  unfolding no_storage_failure_iff by (rule exI [of _ 0]) simp

lemma no_storage_failure_trans: "no_storage_failure F F1 \<Longrightarrow> no_storage_failure F1 F2 \<Longrightarrow> no_storage_failure F F2"
  unfolding no_storage_failure_iff
proof -
  assume "\<exists>n. F = replicate n False @ F1" "\<exists>n. F1 = replicate n False @ F2"
  then obtain n m where "F = replicate n False @ F1" "F1 = replicate m False @ F2" by blast
  then have "F = replicate (n + m) False @ F2" by (simp add: replicate_add)
  then show "\<exists>n. F = replicate n False @ F2" by blast
qed

lemma no_storage_failure_stopped_at_storage_failure: "no_storage_failure F F1 \<Longrightarrow> stopped_at_storage_failure F1 F2 \<Longrightarrow> stopped_at_storage_failure F F2"
  unfolding no_storage_failure_iff stopped_at_storage_failure_iff
proof -
  assume "\<exists>n. F = replicate n False @ F1" "\<exists>n. F1 = replicate n False @ True # F2"
  then obtain n m where "F = replicate n False @ F1" "F1 = replicate m False @ True # F2" by blast
  then have "F = replicate (n + m) False @ True # F2" by (simp add: replicate_add)
  then show "\<exists>n. F = replicate n False @ True # F2" by blast
qed

lemma fault_trace_refl: "fault_trace b F F"
  by (simp add: fault_trace_def no_storage_failure_refl)

lemma fault_trace_seq: "fault_trace False F F1 \<Longrightarrow> fault_trace b F1 F2 \<Longrightarrow> fault_trace b F F2"
  unfolding fault_trace_def using no_storage_failure_trans no_storage_failure_stopped_at_storage_failure by blast

lemma fault_trace_True: "fault_trace b F F' \<Longrightarrow> fault_trace True F F'"
  by (auto simp: fault_trace_def)

lemma next_fault_faults:
  "next_fault d = (b, d1) \<Longrightarrow> fault_trace b (faults d) (faults d1) \<and> (b \<longrightarrow> stopped_at_storage_failure (faults d) (faults d1))"
proof (cases "faults d")
  case Nil
  assume "next_fault d = (b, d1)"
  with Nil have "b = False" "d1 = d" by (simp_all add: next_fault_def)
  then show ?thesis by (simp add: fault_trace_refl)
next
  case (Cons c cs)
  assume "next_fault d = (b, d1)"
  with Cons have b: "b = c" and d1: "faults d1 = cs" by (auto simp: next_fault_def)
  show ?thesis
  proof (cases c)
    case True
    have "faults d = replicate 0 False @ True # cs" using Cons True by simp
    then have "stopped_at_storage_failure (faults d) cs" unfolding stopped_at_storage_failure_iff by blast
    with True b d1 show ?thesis by (simp add: fault_trace_def)
  next
    case False
    have "faults d = replicate 1 False @ cs" using Cons False by simp
    then have "no_storage_failure (faults d) cs" unfolding no_storage_failure_iff by blast
    with False b d1 show ?thesis by (simp add: fault_trace_def)
  qed
qed

lemma next_fault_tables:
  "next_fault d = (b, d1) \<Longrightarrow>
     files d1 = files d \<and> context_vectors d1 = context_vectors d \<and> projects d1 = projects d \<and>
     sqlite_sequence d1 = sqlite_sequence d \<and> clock d1 = clock d"
  by (auto simp: next_fault_def split: list.splits)


lemma is_Err_simps [simp]: "is_Err (Err e)" "\<not> is_Err (Ok x)" "\<not> is_Err (Panic p)"
  by (simp_all add: is_Err_def)

lemma insert_file_faults: "insert_file f d = (r, d1) \<Longrightarrow> fault_trace (isl r) (faults d) (faults d1)"
  unfolding insert_file_def next_stamp_def
  by (auto split: prod.splits bool.splits list.splits dest!: next_fault_faults simp: Let_def)

lemma insert_vector_faults: "insert_vector i v d = (r, d1) \<Longrightarrow> fault_trace (isl r) (faults d) (faults d1)"
  unfolding insert_vector_def
  by (auto split: prod.splits bool.splits dest!: next_fault_faults)

lemma delete_vector_faults: "delete_vector i d = (r, d1) \<Longrightarrow> fault_trace (isl r) (faults d) (faults d1)"
  unfolding delete_vector_def
  by (auto split: prod.splits bool.splits dest!: next_fault_faults)

lemma delete_file_faults: "delete_file i d = (r, d1) \<Longrightarrow> fault_trace (isl r) (faults d) (faults d1)"
  unfolding delete_file_def
  by (auto split: prod.splits bool.splits dest!: next_fault_faults)

lemma Begin_faults: "Begin d = (r, d1) \<Longrightarrow> fault_trace (isl r) (faults d) (faults d1)"
  unfolding Begin_def
  by (auto split: prod.splits bool.splits dest!: next_fault_faults)

lemma Rollback_faults [simp]: "faults (Rollback tx d) = faults d"
  by (simp add: Rollback_def)

lemma Commit_faults: "Commit tx d = (r, d1) \<Longrightarrow> fault_trace (isl r) (faults d) (faults d1)"
  unfolding Commit_def
  by (auto split: prod.splits bool.splits dest!: next_fault_faults)

lemma create_table_faults: "create_table d = (r, d1) \<Longrightarrow> fault_trace (isl r) (faults d) (faults d1)"
  unfolding create_table_def
  by (auto split: prod.splits bool.splits dest!: next_fault_faults)

lemma GetFilesToSync_faults: "GetFilesToSync d = (r, d1) \<Longrightarrow> fault_trace (isl r) (faults d) (faults d1)"
  unfolding GetFilesToSync_def
  by (auto split: prod.splits bool.splits dest!: next_fault_faults)

lemma GetProjectFilePaths_faults: "GetProjectFilePaths d = (r, d1) \<Longrightarrow> fault_trace (isl r) (faults d) (faults d1)"
  unfolding GetProjectFilePaths_def
  by (auto split: prod.splits bool.splits dest!: next_fault_faults)

lemma GetProjectByAlias_faults: "GetProjectByAlias a d = (r, d1) \<Longrightarrow> fault_trace (isl r) (faults d) (faults d1)"
  unfolding GetProjectByAlias_def
  by (auto split: prod.splits bool.splits option.splits dest!: next_fault_faults intro: fault_trace_True)

lemma fault_trace_Inr: "fault_trace (isl (Inr x)) F F1 \<Longrightarrow> fault_trace False F F1"
  by simp

lemma fault_trace_Inl: "fault_trace (isl (Inl x)) F F1 \<Longrightarrow> fault_trace True F F1"
  by simp

lemma SaveFileEmbedding_faults:
  assumes "SaveFileEmbedding f e d = (r, d1)"
  shows "fault_trace (is_Err r) (faults d) (faults d1)"
proof (cases "insert_file f d")
  case (Pair r0 d0)
  note a = insert_file_faults [OF Pair]
  show ?thesis
  proof (cases r0)
    case (Inl err)
    with Pair assms a show ?thesis by (auto simp: SaveFileEmbedding_def)
  next
    case (Inr lastID)
    with a have q: "fault_trace False (faults d) (faults d0)" by simp
    show ?thesis
    proof (cases "Float32 e")
      case (Inl p)
      with Pair Inr assms q show ?thesis by (auto simp: SaveFileEmbedding_def)
    next
      case v: (Inr v)
      obtain r2 d2 where iv: "insert_vector lastID v d0 = (r2, d2)" by (cases "insert_vector lastID v d0")
      note b = insert_vector_faults [OF iv]
      from Pair Inr v iv assms have "d1 = d2" "is_Err r = isl r2"
        by (auto simp: SaveFileEmbedding_def split: sum.splits)
      with fault_trace_seq [OF q b] show ?thesis by simp
    qed
  qed
qed

lemmas stmt_faults = insert_file_faults insert_vector_faults delete_vector_faults delete_file_faults Begin_faults Commit_faults

lemma UpdateFileEmbedding_faults:
  assumes "UpdateFileEmbedding i f e d = (r, d1)"
  shows "fault_trace (is_Err r) (faults d) (faults d1)"
  using assms unfolding UpdateFileEmbedding_def
  by (auto split: prod.splits sum.splits dest!: stmt_faults) (blast intro: fault_trace_seq)+

lemma DeleteFileAndVector_faults:
  assumes "DeleteFileAndVector i d = (r, d1)"
  shows "fault_trace (is_Err r) (faults d) (faults d1)"
  using assms unfolding DeleteFileAndVector_def
  by (auto split: prod.splits sum.splits dest!: stmt_faults) (blast intro: fault_trace_seq)+

lemma say_db [simp]: "db (say line w) = db w"
  by (simp add: say_def)

lemma say_log [simp]: "log (say line w) = log w @ [line]"
  by (simp add: say_def)

lemma new_file_step_faults:
  assumes "new_file_step env config ex fp w = (r, w1)"
  shows "fault_trace (is_Err r) (faults (db w)) (faults (db w1))"
  using assms unfolding new_file_step_def Let_def
  by (auto split: if_splits sum.splits prod.splits result.splits
           dest!: SaveFileEmbedding_faults simp: fault_trace_refl)

lemma existing_file_step_faults:
  assumes "existing_file_step env config loc row w = (r, w1)"
  shows "fault_trace (is_Err r) (faults (db w)) (faults (db w1))"
  using assms unfolding existing_file_step_def Let_def
  by (auto split: if_splits sum.splits prod.splits result.splits
           dest!: UpdateFileEmbedding_faults DeleteFileAndVector_faults simp: fault_trace_refl)

lemma new_files_loop_faults:
  "new_files_loop env config ex fs w = (r, w1) \<Longrightarrow> fault_trace (is_Err r) (faults (db w)) (faults (db w1))"
proof (induction fs arbitrary: w)
  case Nil
  then show ?case by (auto simp: fault_trace_refl)
next
  case (Cons fp fs)
  obtain r0 w0 where st: "new_file_step env config ex fp w = (r0, w0)"
    by (cases "new_file_step env config ex fp w")
  note g = new_file_step_faults [OF st]
  show ?case
  proof (cases r0)
    case (Ok u)
    with Cons.prems st have "new_files_loop env config ex fs w0 = (r, w1)" by simp
    from Cons.IH [OF this] g Ok show ?thesis by (auto intro: fault_trace_seq)
  next
    case (Err e)
    with Cons.prems st g show ?thesis by auto
  next
    case (Panic p)
    with Cons.prems st g show ?thesis by auto
  qed
qed

lemma existing_files_loop_faults:
  "existing_files_loop env config loc rows w = (r, w1) \<Longrightarrow>
     fault_trace (is_Err r) (faults (db w)) (faults (db w1))"
proof (induction rows arbitrary: w)
  case Nil
  then show ?case by (auto simp: fault_trace_refl)
next
  case (Cons row rows)
  obtain r0 w0 where st: "existing_file_step env config loc row w = (r0, w0)"
    by (cases "existing_file_step env config loc row w")
  note g = existing_file_step_faults [OF st]
  show ?case
  proof (cases r0)
    case (Ok u)
    with Cons.prems st have "existing_files_loop env config loc rows w0 = (r, w1)" by simp
    from Cons.IH [OF this] g Ok show ?thesis by (auto intro: fault_trace_seq)
  next
    case (Err e)
    with Cons.prems st g show ?thesis by auto
  next
    case (Panic p)
    with Cons.prems st g show ?thesis by auto
  qed
qed

lemma sync_project_faults:
  assumes "sync_project env config w = (r, w1)"
  shows "fault_trace (is_Err r) (faults (db w)) (faults (db w1))"
  using assms unfolding sync_project_def Let_def
  by (auto split: sum.splits prod.splits result.splits
           dest!: GetProjectFilePaths_faults GetFilesToSync_faults new_files_loop_faults existing_files_loop_faults
           simp: fault_trace_refl)
     (blast intro: fault_trace_seq fault_trace_True)+

lemma InitDB_faults: "InitDB n k d = (r, d1) \<Longrightarrow> fault_trace (isl r) (faults d) (faults d1)"
  unfolding InitDB_def
  by (auto split: prod.splits sum.splits dest!: create_table_faults) (blast intro: fault_trace_seq)+

lemma SetupDatabase_faults: "SetupDatabase n k d = (r, d1) \<Longrightarrow> fault_trace (isl r) (faults d) (faults d1)"
  unfolding SetupDatabase_def
  by (auto split: prod.splits sum.splits dest!: InitDB_faults)

lemma RunSync_faults:
  assumes "RunSync env a w = (r, w1)"
  shows "fault_trace (is_Err r) (faults (db w)) (faults (db w1))"
  using assms unfolding RunSync_def
  by (auto split: sum.splits prod.splits
           dest!: SetupDatabase_faults GetProjectByAlias_faults sync_project_faults)
     (blast intro: fault_trace_seq fault_trace_True)+

subsection \<open>Skipped files and runs without storage failure\<close>

lemma new_file_skipped:
  assumes "TrimPrefix fp (ProjectPath config) \<notin> ex"
      and "embed_failure env config fp (TrimPrefix fp (ProjectPath config)) = Some line"
  shows "new_files_loop env config ex (fp # rest) w =
           new_files_loop env config ex rest
             (say line (say (Adding_new_file (TrimPrefix fp (ProjectPath config))) w))"
proof -
  from assms have "new_file_step env config ex fp w =
      (Ok (), say line (say (Adding_new_file (TrimPrefix fp (ProjectPath config))) w))"
    by (auto simp: new_file_step_def embed_failure_def Let_def split: sum.splits)
  then show ?thesis by simp
qed

lemma existing_file_skipped:
  assumes "fFile row \<in> loc"
      and "embed_failure env config (filepath_Join env (ProjectPath config) (fFile row)) (fFile row)
             = Some line"
  shows "existing_files_loop env config loc (row # rest) w =
           existing_files_loop env config loc rest (say line (say (Updating_file (fFile row)) w))"
proof -
  from assms have "existing_file_step env config loc row w =
      (Ok (), say line (say (Updating_file (fFile row)) w))"
    by (auto simp: existing_file_step_def embed_failure_def Let_def split: sum.splits)
  then show ?thesis by simp
qed

lemma next_fault_nil: "faults d = [] \<Longrightarrow> next_fault d = (False, d)"
  by (simp add: next_fault_def)

lemma SaveFileEmbedding_total:
  assumes "faults d = []"
  shows "\<exists>i d1. SaveFileEmbedding f (Some v) d = (Ok i, d1) \<and> faults d1 = []"
  using assms
  by (simp add: SaveFileEmbedding_def insert_file_def insert_vector_def next_fault_nil
      next_stamp_def Float32_def Let_def split: list.splits)

lemma UpdateFileEmbedding_total:
  assumes "faults d = []"
  shows "\<exists>d1. UpdateFileEmbedding i f (Some v) d = (Ok (), d1) \<and> faults d1 = []"
  using assms
  by (simp add: UpdateFileEmbedding_def Begin_def Commit_def delete_vector_def delete_file_def
      insert_file_def insert_vector_def next_fault_nil
      next_stamp_def Float32_def Let_def split: list.splits)

lemma DeleteFileAndVector_total:
  assumes "faults d = []"
  shows "\<exists>d1. DeleteFileAndVector i d = (Ok (), d1) \<and> faults d1 = []"
  using assms
  by (simp add: DeleteFileAndVector_def Begin_def Commit_def delete_vector_def delete_file_def
      next_fault_nil)

lemma new_file_step_total:
  assumes "faults (db w) = []" and "never_empty env"
  shows "\<exists>w1. new_file_step env config ex fp w = (Ok (), w1) \<and> faults (db w1) = []"
proof (cases "TrimPrefix fp (ProjectPath config) \<in> ex")
  case True
  with assms show ?thesis by (simp add: new_file_step_def)
next
  case new: False
  let ?rel = "TrimPrefix fp (ProjectPath config)"
  show ?thesis
  proof (cases "embed_failure env config fp ?rel")
    case (Some line)
    with new assms show ?thesis
      by (auto simp: new_file_step_def embed_failure_def Let_def split: sum.splits)
  next
    case None
    then obtain content res where
      rd: "os_ReadFile env fp = Inr content" and
      em: "client_Embeddings env (ClientName config) (ModelName config) (embed_text ?rel content) = Inr res"
      by (auto simp: embed_failure_def split: sum.splits)
    from em assms(2) obtain v where v: "GetEmbeddings res = Some v"
      unfolding never_empty_def by blast
    from SaveFileEmbedding_total [of "db (say (Adding_new_file ?rel) w)" ?rel v] assms(1)
    obtain i d1 where "SaveFileEmbedding ?rel (Some v) (db (say (Adding_new_file ?rel) w)) = (Ok i, d1)"
      and "faults d1 = []" by auto
    with new rd em v show ?thesis
      by (simp add: new_file_step_def Let_def)
  qed
qed

lemma existing_file_step_total:
  assumes "faults (db w) = []" and "never_empty env"
  shows "\<exists>w1. existing_file_step env config loc row w = (Ok (), w1) \<and> faults (db w1) = []"
proof (cases "fFile row \<in> loc")
  case False
  from DeleteFileAndVector_total [of "db (say (Removing_deleted_file (fFile row)) w)" "fID row"] assms(1)
  obtain d1 where "DeleteFileAndVector (fID row) (db (say (Removing_deleted_file (fFile row)) w)) = (Ok (), d1)"
    and "faults d1 = []" by auto
  with False show ?thesis by (simp add: existing_file_step_def Let_def)
next
  case here: True
  let ?full = "filepath_Join env (ProjectPath config) (fFile row)"
  show ?thesis
  proof (cases "embed_failure env config ?full (fFile row)")
    case (Some line)
    with here assms show ?thesis
      by (auto simp: existing_file_step_def embed_failure_def Let_def split: sum.splits)
  next
    case None
    then obtain content res where
      rd: "os_ReadFile env ?full = Inr content" and
      em: "client_Embeddings env (ClientName config) (ModelName config)
             (embed_text (fFile row) content) = Inr res"
      by (auto simp: embed_failure_def split: sum.splits)
    from em assms(2) obtain v where v: "GetEmbeddings res = Some v"
      unfolding never_empty_def by blast
    from UpdateFileEmbedding_total [of "db (say (Updating_file (fFile row)) w)" "fID row" "fFile row" v]
      assms(1)
    obtain d1 where
      "UpdateFileEmbedding (fID row) (fFile row) (Some v) (db (say (Updating_file (fFile row)) w)) = (Ok (), d1)"
      and "faults d1 = []" by auto
    with here rd em v show ?thesis
      by (simp add: existing_file_step_def Let_def)
  qed
qed

lemma new_files_loop_total:
  assumes "never_empty env"
  shows "faults (db w) = [] \<Longrightarrow>
     \<exists>w1. new_files_loop env config ex fs w = (Ok (), w1) \<and> faults (db w1) = []"
proof (induction fs arbitrary: w)
  case Nil
  then show ?case by simp
next
  case (Cons fp fs)
  from new_file_step_total [OF Cons.prems assms, of config ex fp]
  obtain w0 where st: "new_file_step env config ex fp w = (Ok (), w0)" and f: "faults (db w0) = []"
    by blast
  from Cons.IH [OF f] st show ?case by simp
qed

lemma existing_files_loop_total:
  assumes "never_empty env"
  shows "faults (db w) = [] \<Longrightarrow>
     \<exists>w1. existing_files_loop env config loc rows w = (Ok (), w1) \<and> faults (db w1) = []"
proof (induction rows arbitrary: w)
  case Nil
  then show ?case by simp
next
  case (Cons row rows)
  from existing_file_step_total [OF Cons.prems assms, of config loc row]
  obtain w0 where st: "existing_file_step env config loc row w = (Ok (), w0)"
    and f: "faults (db w0) = []"
    by blast
  from Cons.IH [OF f] st show ?case by simp
qed

lemma sync_project_total:
  assumes "faults (db w) = []" and "never_empty env"
      and "file_RecursiveFiles env (ProjectPath config) (ConfigExtensions config) = Inr fs"
  shows "\<exists>w1. sync_project env config w = (Ok (), w1)"
proof -
  let ?loc = "set (map (\<lambda>filePath. TrimPrefix filePath (ProjectPath config)) fs)"
  let ?ex = "set (map fFile (files (db w)))"
  have q: "GetProjectFilePaths (db w) = (Inr ?ex, db w)"
    using assms(1) by (simp add: GetProjectFilePaths_def next_fault_nil)
  have "faults (db (say Processing_new_files (w\<lparr>db := db w\<rparr>))) = []" using assms(1) by simp
  from new_files_loop_total [OF assms(2) this, of config ?ex fs]
  obtain w1 where l1: "new_files_loop env config ?ex fs (say Processing_new_files (w\<lparr>db := db w\<rparr>)) = (Ok (), w1)"
    and f1: "faults (db w1) = []" by blast
  let ?w2 = "say Processing_existing_files w1"
  have g: "GetFilesToSync (db ?w2) = (Inr (sort_key fCreatedAt (files (db w1))), db w1)"
    using f1 by (simp add: GetFilesToSync_def next_fault_nil)
  have "faults (db (?w2\<lparr>db := db w1\<rparr>)) = []" using f1 by simp
  from existing_files_loop_total [OF assms(2) this, of config ?loc "sort_key fCreatedAt (files (db w1))"]
  obtain w3 where "existing_files_loop env config ?loc (sort_key fCreatedAt (files (db w1)))
      (?w2\<lparr>db := db w1\<rparr>) = (Ok (), w3)" by blast
  with q l1 g assms(3) show ?thesis
    by (simp add: sync_project_def Let_def)
qed

lemma RunSync_total:
  assumes "faults (db w) = []" and "never_empty env"
      and "find (\<lambda>p. Alias p = a) (projects (db w)) = Some project"
      and "file_RecursiveFiles env (Path project) (Extensions project) = Inr fs"
  shows "\<exists>w1. RunSync env a w = (Ok (), w1)"
proof -
  have s: "SetupDatabase a 0 (db w) = (Inr (), db w)"
    using assms(1) by (simp add: SetupDatabase_def InitDB_def create_table_def next_fault_nil)
  have p: "GetProjectByAlias a (db w) = (Inr project, db w)"
    using assms(1,3) by (simp add: GetProjectByAlias_def next_fault_nil)
  let ?config = "\<lparr>ProjectAlias = Alias project, ProjectPath = Path project,
             ClientName = Client project, ModelName = Model project,
             ConfigExtensions = Extensions project\<rparr>"
  have "faults (db (w\<lparr>db := db w\<rparr>)) = []" using assms(1) by simp
  from sync_project_total [OF this assms(2), of ?config fs] assms(4)
  obtain w1 where "sync_project env ?config (w\<lparr>db := db w\<rparr>) = (Ok (), w1)" by auto
  with s p show ?thesis by (simp add: RunSync_def)
qed

text \<open>
  Claim C6. (1) and (2): when reading a file or embedding it fails, the loop logs the
  failure and goes on with the remaining files from a state in which only the log has
  grown; this holds for a new file and for a stored one. (3): along any run of
  \<open>RunSync\<close> either no storage statement failed, or exactly one did, it was the last
  statement the run executed, and the run returned an error. (4): when no storage
  statement fails, the project is found, the walk succeeds and every successful
  response holds an embedding, \<open>RunSync\<close> returns without error whatever reads and
  provider calls fail.
\<close>

theorem sync_skips_files_and_stops_at_storage_errors:
  "(TrimPrefix fp (ProjectPath config) \<notin> ex \<and>
    embed_failure env config fp (TrimPrefix fp (ProjectPath config)) = Some line \<longrightarrow>
      new_files_loop env config ex (fp # rest) w =
        new_files_loop env config ex rest
          (say line (say (Adding_new_file (TrimPrefix fp (ProjectPath config))) w)) \<and>
      db (say line (say (Adding_new_file (TrimPrefix fp (ProjectPath config))) w)) = db w) \<and>
   (fFile row \<in> loc \<and>
    embed_failure env config (filepath_Join env (ProjectPath config) (fFile row)) (fFile row)
      = Some line \<longrightarrow>
      existing_files_loop env config loc (row # rows) w =
        existing_files_loop env config loc rows (say line (say (Updating_file (fFile row)) w)) \<and>
      db (say line (say (Updating_file (fFile row)) w)) = db w) \<and>
   (RunSync env a w = (r, w1) \<longrightarrow>
      no_storage_failure (faults (db w)) (faults (db w1)) \<or>
      stopped_at_storage_failure (faults (db w)) (faults (db w1)) \<and> (\<exists>e. r = Err e)) \<and>
   (faults (db w) = [] \<and> never_empty env \<and>
    find (\<lambda>p. Alias p = a) (projects (db w)) = Some project \<and>
    file_RecursiveFiles env (Path project) (Extensions project) = Inr fs \<longrightarrow>
      (\<exists>w1. RunSync env a w = (Ok (), w1)))"
proof (intro conjI impI)
  assume "TrimPrefix fp (ProjectPath config) \<notin> ex \<and>
    embed_failure env config fp (TrimPrefix fp (ProjectPath config)) = Some line"
  then show "new_files_loop env config ex (fp # rest) w =
        new_files_loop env config ex rest
          (say line (say (Adding_new_file (TrimPrefix fp (ProjectPath config))) w))"
    using new_file_skipped by blast
next
  show "db (say line (say (Adding_new_file (TrimPrefix fp (ProjectPath config))) w)) = db w"
    by simp
next
  assume "fFile row \<in> loc \<and>
    embed_failure env config (filepath_Join env (ProjectPath config) (fFile row)) (fFile row)
      = Some line"
  then show "existing_files_loop env config loc (row # rows) w =
        existing_files_loop env config loc rows (say line (say (Updating_file (fFile row)) w))"
    using existing_file_skipped by blast
next
  show "db (say line (say (Updating_file (fFile row)) w)) = db w" by simp
next
  assume "RunSync env a w = (r, w1)"
  from RunSync_faults [OF this]
  show "no_storage_failure (faults (db w)) (faults (db w1)) \<or>
      stopped_at_storage_failure (faults (db w)) (faults (db w1)) \<and> (\<exists>e. r = Err e)"
    by (cases r) (auto simp: fault_trace_def)
next
  assume "faults (db w) = [] \<and> never_empty env \<and>
    find (\<lambda>p. Alias p = a) (projects (db w)) = Some project \<and>
    file_RecursiveFiles env (Path project) (Extensions project) = Inr fs"
  then show "\<exists>w1. RunSync env a w = (Ok (), w1)"
    using RunSync_total by blast
qed

subsection \<open>Runs on the example project\<close>

lemmas sync_defs =
  RunSync_def sync_project_def SetupDatabase_def InitDB_def create_table_def
  GetProjectByAlias_def GetProjectFilePaths_def GetFilesToSync_def
  new_file_step_def existing_file_step_def SaveFileEmbedding_def UpdateFileEmbedding_def
  DeleteFileAndVector_def Begin_def Commit_def Rollback_def insert_file_def insert_vector_def
  delete_file_def delete_vector_def next_fault_def next_stamp_def next_rowid_def
  GetEmbeddings_def Float32_def say_def TrimPrefix_def embed_text_def Let_def

lemmas example_defs =
  abc_env_def silent_env_def bcd_db_def go_project_def unit_response_def empty_response_def

text \<open>
  Claim C1 at its own example. The local files are \<open>a\<close>, \<open>b\<close>, \<open>c\<close> and the stored
  files \<open>b\<close>, \<open>c\<close>, \<open>d\<close>. \<open>RunSync\<close> inserts \<open>a\<close> (id 4), then reads the rows to
  update after that insert, so the second loop replaces \<open>b\<close>, \<open>c\<close> and also \<open>a\<close>
  (logged as an update, final id 7), and deletes \<open>d\<close>: the new file is embedded twice.
\<close>

theorem sync_reembeds_new_file:
  "RunSync abc_env ''p'' \<lparr>db = bcd_db, log = []\<rparr> =
  (Ok (),
   \<lparr>db = \<lparr>files = [\<lparr>fID = 5, fFile = ''/b.go'', fCreatedAt = 11\<rparr>,
               \<lparr>fID = 6, fFile = ''/c.go'', fCreatedAt = 12\<rparr>,
               \<lparr>fID = 7, fFile = ''/a.go'', fCreatedAt = 13\<rparr>],
      context_vectors = [(5, [1]), (6, [1]), (7, [1])],
      projects = [go_project],
      sqlite_sequence = 7,
      clock = [],
      faults = []\<rparr>,
    log = [Processing_new_files, Adding_new_file ''/a.go'', Processing_existing_files,
           Updating_file ''/b.go'', Updating_file ''/c.go'', Removing_deleted_file ''/d.go'',
           Updating_file ''/a.go'']\<rparr>)"
  by (simp add: sync_defs example_defs)

text \<open>
  Claim C2 at a failing insert. \<open>SaveFileEmbedding\<close> runs its two inserts outside a
  transaction: when the insert of the vector fails, the row of \<^verbatim>\<open>files\<close> stays
  without a vector. \<open>UpdateFileEmbedding\<close>, which has a transaction, leaves the tables
  as they were when the same statement fails.
\<close>

theorem save_leaves_orphan_row:
  "orphan_files bcd_db = [] \<and> orphan_vectors bcd_db = [] \<and>
   SaveFileEmbedding ''/a.go'' (Some [1]) (bcd_db\<lparr>faults := [False, True]\<rparr>) =
     (Err (Errorf ''failed to insert into context_vectors: %w'' driver_error),
      bcd_db\<lparr>files := files bcd_db @ [\<lparr>fID = 4, fFile = ''/a.go'', fCreatedAt = 10\<rparr>],
             sqlite_sequence := 4, clock := [11, 12, 13], faults := []\<rparr>) \<and>
   orphan_files (snd (SaveFileEmbedding ''/a.go'' (Some [1]) (bcd_db\<lparr>faults := [False, True]\<rparr>)))
     = [\<lparr>fID = 4, fFile = ''/a.go'', fCreatedAt = 10\<rparr>] \<and>
   UpdateFileEmbedding 1 ''/b.go'' (Some [1])
       (bcd_db\<lparr>faults := [False, False, False, False, True]\<rparr>) =
     (Err (Errorf ''failed to insert new vector: %w'' driver_error),
      bcd_db\<lparr>clock := [11, 12, 13], faults := []\<rparr>)"
  by (simp add: sync_defs example_defs orphan_files_def orphan_vectors_def)

text \<open>
  Claim C7 at a response without embeddings. \<open>GetEmbeddings\<close> returns \<^verbatim>\<open>nil\<close>, and
  \<open>SaveFileEmbedding\<close> dereferences it after the row of \<^verbatim>\<open>files\<close> is inserted:
  the sync and the build loop both panic at the first such file, and the row stays
  without a vector.
\<close>

theorem empty_response_panics:
  "GetEmbeddings empty_response = None \<and>
   RunSync silent_env ''p'' \<lparr>db = bcd_db, log = []\<rparr> =
     (Panic NilPointerDereference,
      \<lparr>db = bcd_db\<lparr>files := files bcd_db @ [\<lparr>fID = 4, fFile = ''/a.go'', fCreatedAt = 10\<rparr>],
                  sqlite_sequence := 4, clock := [11, 12, 13]\<rparr>,
       log = [Processing_new_files, Adding_new_file ''/a.go'']\<rparr>) \<and>
   process_files_loop silent_env
       \<lparr>ProjectAlias = ''p'', ProjectPath = ''/src'', ClientName = ''ollama'',
        ModelName = ''m'', ConfigExtensions = [''go'']\<rparr>
       [''/src/a.go'', ''/src/b.go''] \<lparr>db = bcd_db, log = []\<rparr> =
     (Panic NilPointerDereference,
      \<lparr>db = bcd_db\<lparr>files := files bcd_db @ [\<lparr>fID = 4, fFile = ''/a.go'', fCreatedAt = 10\<rparr>],
                  sqlite_sequence := 4, clock := [11, 12, 13]\<rparr>,
       log = [Processing_file ''/a.go'']\<rparr>) \<and>
   orphan_files (db (snd (RunSync silent_env ''p'' \<lparr>db = bcd_db, log = []\<rparr>)))
     = [\<lparr>fID = 4, fFile = ''/a.go'', fCreatedAt = 10\<rparr>]"
  by (simp add: sync_defs example_defs process_file_step_def orphan_files_def)

lemma flaky_never_empty: "never_empty flaky_env"
  by (simp add: never_empty_def flaky_env_def abc_env_def GetEmbeddings_def unit_response_def)

lemma flaky_run:
  "RunSync flaky_env ''p'' start_world =
     (Ok (),
      \<lparr>db = bcd_db\<lparr>files := [\<lparr>fID = 1, fFile = ''/b.go'', fCreatedAt = 1\<rparr>,
                            \<lparr>fID = 4, fFile = ''/c.go'', fCreatedAt = 10\<rparr>],
                  context_vectors := [(1, [1]), (4, [1])],
                  sqlite_sequence := 4, clock := [11, 12, 13]\<rparr>,
       log = [Processing_new_files, Adding_new_file ''/a.go'',
              Error_reading_file ''/src/a.go'' (Failure ''EACCES''),
              Processing_existing_files, Updating_file ''/b.go'',
              Error_generating_embeddings ''/src/b.go'' (Failure ''503''),
              Updating_file ''/c.go'', Removing_deleted_file ''/d.go'']\<rparr>)"
  by (simp add: sync_defs example_defs flaky_env_def start_world_def)

lemma failing_update_run:
  "RunSync abc_env ''p'' failing_update_world =
     (Err (Errorf ''error updating embedding for file %s: %w''
            (Errorf ''failed to delete file record for fileID %d: %w'' driver_error)),
      \<lparr>db = bcd_db\<lparr>files := files bcd_db @ [\<lparr>fID = 4, fFile = ''/a.go'', fCreatedAt = 10\<rparr>],
                  context_vectors := context_vectors bcd_db @ [(4, [1])],
                  sqlite_sequence := 4, clock := [11, 12, 13], faults := [False, False]\<rparr>,
       log = [Processing_new_files, Adding_new_file ''/a.go'', Processing_existing_files,
              Updating_file ''/b.go'']\<rparr>)"
  by (simp add: sync_defs example_defs failing_update_world_def)

theorem sync_skips_files_and_stops_at_storage_errors_witness:
  "embed_failure flaky_env go_config ''/src/a.go'' ''/a.go''
     = Some (Error_reading_file ''/src/a.go'' (Failure ''EACCES'')) \<and>
   new_files_loop flaky_env go_config {''/b.go'', ''/c.go'', ''/d.go''}
       [''/src/a.go'', ''/src/b.go''] start_world =
     new_files_loop flaky_env go_config {''/b.go'', ''/c.go'', ''/d.go''} [''/src/b.go'']
       (say (Error_reading_file ''/src/a.go'' (Failure ''EACCES''))
          (say (Adding_new_file ''/a.go'') start_world)) \<and>
   embed_failure flaky_env go_config ''/src/b.go'' ''/b.go''
     = Some (Error_generating_embeddings ''/src/b.go'' (Failure ''503'')) \<and>
   existing_files_loop flaky_env go_config {''/a.go'', ''/b.go'', ''/c.go''}
       [\<lparr>fID = 1, fFile = ''/b.go'', fCreatedAt = 1\<rparr>,
        \<lparr>fID = 2, fFile = ''/c.go'', fCreatedAt = 2\<rparr>] start_world =
     existing_files_loop flaky_env go_config {''/a.go'', ''/b.go'', ''/c.go''}
       [\<lparr>fID = 2, fFile = ''/c.go'', fCreatedAt = 2\<rparr>]
       (say (Error_generating_embeddings ''/src/b.go'' (Failure ''503''))
          (say (Updating_file ''/b.go'') start_world)) \<and>
   fst (RunSync abc_env ''p'' failing_update_world) =
     Err (Errorf ''error updating embedding for file %s: %w''
            (Errorf ''failed to delete file record for fileID %d: %w'' driver_error)) \<and>
   stopped_at_storage_failure (faults (db failing_update_world)) [False, False] \<and>
   faults (db start_world) = [] \<and> never_empty flaky_env \<and>
   fst (RunSync flaky_env ''p'' start_world) = Ok () \<and>
   map fFile (files (db (snd (RunSync flaky_env ''p'' start_world)))) = [''/b.go'', ''/c.go'']"
proof -
  let ?rowb = "\<lparr>fID = 1, fFile = ''/b.go'', fCreatedAt = 1\<rparr>"
  let ?rowc = "\<lparr>fID = 2, fFile = ''/c.go'', fCreatedAt = 2\<rparr>"
  note claim = sync_skips_files_and_stops_at_storage_errors
  have rel: "TrimPrefix ''/src/a.go'' (ProjectPath go_config) = ''/a.go''"
    by (simp add: TrimPrefix_def go_config_def)
  have fa: "embed_failure flaky_env go_config ''/src/a.go'' ''/a.go''
      = Some (Error_reading_file ''/src/a.go'' (Failure ''EACCES''))"
    by (simp add: embed_failure_def flaky_env_def abc_env_def)
  have fb: "embed_failure flaky_env go_config
        (filepath_Join flaky_env (ProjectPath go_config) (fFile ?rowb)) (fFile ?rowb)
      = Some (Error_generating_embeddings ''/src/b.go'' (Failure ''503''))"
    by (simp add: embed_failure_def flaky_env_def abc_env_def go_config_def)
  have fb': "embed_failure flaky_env go_config ''/src/b.go'' ''/b.go''
      = Some (Error_generating_embeddings ''/src/b.go'' (Failure ''503''))"
    using fb by (simp add: flaky_env_def abc_env_def go_config_def)
  have A: "new_files_loop flaky_env go_config {''/b.go'', ''/c.go'', ''/d.go''}
       [''/src/a.go'', ''/src/b.go''] start_world =
     new_files_loop flaky_env go_config {''/b.go'', ''/c.go'', ''/d.go''} [''/src/b.go'']
       (say (Error_reading_file ''/src/a.go'' (Failure ''EACCES''))
          (say (Adding_new_file ''/a.go'') start_world))"
    using claim [where fp = "''/src/a.go''"
        and config = go_config
        and ex = "{''/b.go'', ''/c.go'', ''/d.go''}"
        and line = "Error_reading_file ''/src/a.go'' (Failure ''EACCES'')"
        and rest = "[''/src/b.go'']"
        and row = ?rowb
        and loc = "{''/a.go'', ''/b.go'', ''/c.go''}"
        and rows = "[?rowc]"
        and r = "fst (RunSync flaky_env ''p'' start_world)"
        and ?w1.0 = "snd (RunSync flaky_env ''p'' start_world)"
        and env = flaky_env
        and a = "''p''"
        and w = start_world
        and project = go_project
        and fs = "[''/src/a.go'', ''/src/b.go'', ''/src/c.go'']"]
      fa by (simp add: rel)
  have B: "existing_files_loop flaky_env go_config {''/a.go'', ''/b.go'', ''/c.go''}
       [?rowb, ?rowc] start_world =
     existing_files_loop flaky_env go_config {''/a.go'', ''/b.go'', ''/c.go''} [?rowc]
       (say (Error_generating_embeddings ''/src/b.go'' (Failure ''503''))
          (say (Updating_file ''/b.go'') start_world))"
    using claim [where fp = "''/src/a.go''"
        and config = go_config
        and ex = "{''/b.go'', ''/c.go'', ''/d.go''}"
        and line = "Error_generating_embeddings ''/src/b.go'' (Failure ''503'')"
        and rest = "[''/src/b.go'']"
        and row = ?rowb
        and loc = "{''/a.go'', ''/b.go'', ''/c.go''}"
        and rows = "[?rowc]"
        and r = "fst (RunSync flaky_env ''p'' start_world)"
        and ?w1.0 = "snd (RunSync flaky_env ''p'' start_world)"
        and env = flaky_env
        and a = "''p''"
        and w = start_world
        and project = go_project
        and fs = "[''/src/a.go'', ''/src/b.go'', ''/src/c.go'']"]
      fb by simp
  have "faults (db (snd (RunSync abc_env ''p'' failing_update_world))) = [False, False]"
    by (simp add: failing_update_run bcd_db_def)
  moreover have "\<not> no_storage_failure (faults (db failing_update_world)) [False, False]"
    by (simp add: no_storage_failure_def failing_update_world_def bcd_db_def)
  ultimately have C: "stopped_at_storage_failure (faults (db failing_update_world)) [False, False]"
    using claim [where fp = "''/src/a.go''"
        and config = go_config
        and ex = "{''/b.go'', ''/c.go'', ''/d.go''}"
        and line = "Error_reading_file ''/src/a.go'' (Failure ''EACCES'')"
        and rest = "[''/src/b.go'']"
        and row = ?rowb
        and loc = "{''/a.go'', ''/b.go'', ''/c.go''}"
        and rows = "[?rowc]"
        and r = "fst (RunSync abc_env ''p'' failing_update_world)"
        and ?w1.0 = "snd (RunSync abc_env ''p'' failing_update_world)"
        and env = abc_env
        and a = "''p''"
        and w = failing_update_world
        and project = go_project
        and fs = "[''/src/a.go'', ''/src/b.go'', ''/src/c.go'']"]
    by auto
  have f0: "faults (db start_world) = []" by (simp add: start_world_def bcd_db_def)
  have "find (\<lambda>p. Alias p = ''p'') (projects (db start_world)) = Some go_project"
    by (simp add: start_world_def bcd_db_def go_project_def)
  moreover have "file_RecursiveFiles flaky_env (Path go_project) (Extensions go_project)
      = Inr [''/src/a.go'', ''/src/b.go'', ''/src/c.go'']"
    by (simp add: flaky_env_def abc_env_def)
  ultimately have D: "fst (RunSync flaky_env ''p'' start_world) = Ok ()"
    using claim [where fp = "''/src/a.go''"
        and config = go_config
        and ex = "{''/b.go'', ''/c.go'', ''/d.go''}"
        and line = "Error_reading_file ''/src/a.go'' (Failure ''EACCES'')"
        and rest = "[''/src/b.go'']"
        and row = ?rowb
        and loc = "{''/a.go'', ''/b.go'', ''/c.go''}"
        and rows = "[?rowc]"
        and r = "fst (RunSync flaky_env ''p'' start_world)"
        and ?w1.0 = "snd (RunSync flaky_env ''p'' start_world)"
        and env = flaky_env
        and a = "''p''"
        and w = start_world
        and project = go_project
        and fs = "[''/src/a.go'', ''/src/b.go'', ''/src/c.go'']"]
      f0 flaky_never_empty by auto
  have E: "map fFile (files (db (snd (RunSync flaky_env ''p'' start_world)))) = [''/b.go'', ''/c.go'']"
    by (simp add: flaky_run)
  from fa A fb' B C f0 flaky_never_empty D E failing_update_run show ?thesis by simp
qed

subsection \<open>The files table along a run\<close>










lemma Rollback_files [simp]:
  "files (Rollback tx d) = files tx" "projects (Rollback tx d) = projects tx"
  by (simp_all add: Rollback_def)





























end
